theory Spec2Isabelle
  imports Complex_Main "HOL-Library.Multiset"
begin

section \<open>Python values, exceptions and list operations\<close>

text \<open>
  The module \<^verbatim>\<open>common.py\<close> of filenav is Python 2 code. An exception that leaves a
  function is a value \<open>Inl e\<close> of the result type; a normal return is \<open>Inr v\<close>.
  \<open>OSError\<close> carries \<open>errno\<close>, \<open>strerror\<close> and \<open>filename\<close>, the three attributes
  \<^verbatim>\<open>FileItem.listdir\<close> sets.
\<close>

datatype error =
    IndexError
  | KeyError string
  | TypeError
  | NameError
  | AssertionError
  | AttributeError string
  | OverflowError
  | OSError nat string string

text \<open>
  Python list indices are integers; a negative index counts from the end, and an index
  outside \<open>-len \<le> i < len\<close> raises \<open>IndexError\<close> for \<^verbatim>\<open>xs[i]\<close>, \<^verbatim>\<open>del xs[i]\<close> and
  \<^verbatim>\<open>xs.pop(i)\<close>. \<^verbatim>\<open>xs.insert(i, x)\<close> never raises: it clamps the index.
\<close>

definition norm_index :: "'a list \<Rightarrow> int \<Rightarrow> nat option" where
  "norm_index xs i =
     (let n = int (length xs); j = (if i < 0 then i + n else i)
      in if 0 \<le> j \<and> j < n then Some (nat j) else None)"

definition list_getitem :: "'a list \<Rightarrow> int \<Rightarrow> error + 'a" where
  "list_getitem xs i =
     (case norm_index xs i of None \<Rightarrow> Inl IndexError | Some j \<Rightarrow> Inr (xs ! j))"

definition list_delitem :: "'a list \<Rightarrow> int \<Rightarrow> error + 'a list" where
  "list_delitem xs i =
     (case norm_index xs i of
        None \<Rightarrow> Inl IndexError
      | Some j \<Rightarrow> Inr (take j xs @ drop (Suc j) xs))"

definition list_pop :: "'a list \<Rightarrow> int \<Rightarrow> error + ('a \<times> 'a list)" where
  "list_pop xs i =
     (case norm_index xs i of
        None \<Rightarrow> Inl IndexError
      | Some j \<Rightarrow> Inr (xs ! j, take j xs @ drop (Suc j) xs))"

definition list_insert :: "'a list \<Rightarrow> int \<Rightarrow> 'a \<Rightarrow> 'a list" where
  "list_insert xs i x =
     (let n = int (length xs);
          j = (if i < 0 then max 0 (i + n) else min i n)
      in take (nat j) xs @ [x] @ drop (nat j) xs)"

text \<open>\<^verbatim>\<open>isinstance(err, OSError)\<close>, the test of a clause \<^verbatim>\<open>except OSError\<close>.\<close>

definition is_OSError :: "error \<Rightarrow> bool" where
  "is_OSError e = (case e of OSError n s f \<Rightarrow> True | _ \<Rightarrow> False)"

section \<open>Strings and paths\<close>

text \<open>
  A path or a name is a Python string, a byte string or a unicode string; a unicode
  string is kept as the bytes of its UTF-8 encoding. Splitting at the ASCII characters
  \<open>.\<close> and \<open>/\<close> is the same on these bytes as on the code points. \<^verbatim>\<open>lower()\<close> is not
  defined here: on a unicode name it lowers every cased letter after the Unicode
  character database of the Python runtime, so it is a function the host provides (the
  field \<open>str_lower\<close> below). \<open>ascii_lower\<close> is what it does on a string of ASCII
  characters: the capitals \<open>A\<close> to \<open>Z\<close> become small letters, the rest stays.
\<close>

definition ascii_lower_char :: "char \<Rightarrow> char" where
  "ascii_lower_char c =
     (case map_of (zip ''ABCDEFGHIJKLMNOPQRSTUVWXYZ'' ''abcdefghijklmnopqrstuvwxyz'') c of
        None \<Rightarrow> c
      | Some l \<Rightarrow> l)"

definition ascii_lower :: "string \<Rightarrow> string" where
  "ascii_lower s = map ascii_lower_char s"

text \<open>
  \<^verbatim>\<open>s.split(sep)\<close> for a one-character separator: the pieces between the occurrences of
  \<open>sep\<close>, in order; there is always at least one piece (\<^verbatim>\<open>"".split(".") == [""]\<close>).
\<close>

fun str_split :: "char \<Rightarrow> string \<Rightarrow> string list" where
  "str_split sep [] = [[]]"
| "str_split sep (c # cs) =
     (if c = sep then [] # str_split sep cs
      else (case str_split sep cs of
              [] \<Rightarrow> [[c]]
            | p # ps \<Rightarrow> (c # p) # ps))"


definition extsep :: char where
  "extsep = CHR ''.''"

text \<open>
  \<^verbatim>\<open>os.path.split\<close> and \<^verbatim>\<open>os.path.join\<close> of \<^verbatim>\<open>posixpath\<close>:
  \<^verbatim>\<open>
    def split(p):
        i = p.rfind('/') + 1
        head, tail = p[:i], p[i:]
        if head and head != '/'*len(head):
            head = head.rstrip('/')
        return head, tail

    def join(a, b):
        if b.startswith('/'):
            path = b
        elif a == '' or a.endswith('/'):
            path = a + b
        else:
            path = a + '/' + b
        return path
  \<close>
\<close>

definition os_path_split :: "string \<Rightarrow> string \<times> string" where
  "os_path_split p =
     (let tail = rev (takeWhile (\<lambda>c. c \<noteq> CHR ''/'') (rev p));
          head = take (length p - length tail) p;
          head = (if head \<noteq> [] \<and> \<not> list_all (\<lambda>c. c = CHR ''/'') head
                  then rev (dropWhile (\<lambda>c. c = CHR ''/'') (rev head))
                  else head)
      in (head, tail))"

definition os_path_join :: "string \<Rightarrow> string \<Rightarrow> string" where
  "os_path_join a b =
     (if b \<noteq> [] \<and> hd b = CHR ''/'' then b
      else if a = [] \<or> last a = CHR ''/'' then a @ b
      else a @ ''/'' @ b)"

section \<open>File metadata: \<^verbatim>\<open>FileInfo\<close> and \<^verbatim>\<open>get_fileinfo\<close>\<close>

text \<open>
  The host, as far as the module asks it: \<^verbatim>\<open>os.path.isdir\<close>, \<^verbatim>\<open>os.stat\<close>,
  \<^verbatim>\<open>os.listdir\<close>, \<^verbatim>\<open>os.strerror\<close>, the path normalisations \<^verbatim>\<open>full_path\<close>,
  \<^verbatim>\<open>rel_to_docs\<close> and \<^verbatim>\<open>rel_to_app\<close>, which depend on the home directory, the
  environment and the symbolic links of the device, and \<open>str_lower\<close>, the method
  \<^verbatim>\<open>lower()\<close> of a string. \<^verbatim>\<open>os.stat\<close> and \<^verbatim>\<open>os.listdir\<close> either return or raise.
\<close>

record stat_result =
  st_mode :: nat
  st_size :: int
  st_uid :: nat
  st_gid :: nat
  st_atime :: int
  st_mtime :: int
  st_ctime :: int

record os_env =
  os_path_isdir :: "string \<Rightarrow> bool"
  os_stat :: "string \<Rightarrow> error + stat_result"
  os_listdir :: "string \<Rightarrow> error + string list"
  os_strerror :: "nat \<Rightarrow> string"
  full_path :: "string \<Rightarrow> string"
  rel_to_docs :: "string \<Rightarrow> string"
  rel_to_app :: "string \<Rightarrow> string"
  str_lower :: "string \<Rightarrow> string"

text \<open>
  The module \<^verbatim>\<open>filenav.filetypes\<close> holds three dictionaries, which the functions
  below take as a parameter: \<open>TYPE_GROUPS\<close> maps a file extension to its type group,
  \<open>FILE_EXTS\<close> maps a file extension to its description (which may be \<^verbatim>\<open>None\<close>), and
  \<open>GROUP_ICONS\<close> maps a type group to a pair of a description and an icon. An icon is an
  image of the host, known by its name.
\<close>

datatype icon = Icon string

record filetypes =
  TYPE_GROUPS :: "string \<rightharpoonup> string"
  FILE_EXTS :: "string \<rightharpoonup> string option"
  GROUP_ICONS :: "string \<rightharpoonup> string option \<times> icon"

definition dict_getitem :: "(string \<rightharpoonup> 'v) \<Rightarrow> string \<Rightarrow> error + 'v" where
  "dict_getitem m k = (case m k of None \<Rightarrow> Inl (KeyError k) | Some v \<Rightarrow> Inr v)"

record FileInfo =
  dir :: string
  name :: string
  nameparts :: "string list"
  ext :: "string option"
  group :: string
  desc :: "string option"
  icon :: icon

text \<open>
  \<^verbatim>\<open>
    def get_fileinfo(path):
        dir, name = os.path.split(path)
        nameparts = name.lower().split(os.extsep)
        ext = None
        group = basegroup = "folder" if os.path.isdir(path) else "file"
        desc, icon = filetypes.GROUP_ICONS[group]
        # Find last known file extension
        for part in nameparts:
            if part in filetypes.TYPE_GROUPS:
                ext = part
        # Update group, desc, icon accordingly
        if ext:
            group = filetypes.TYPE_GROUPS.get(ext, group)
            desc = filetypes.FILE_EXTS.get(ext, filetypes.GROUP_ICONS[group][0])
            icon = filetypes.GROUP_ICONS[group][1]
            # Special case - if desc is None, use default file/folder description
            if desc is None:
                desc = filetypes.GROUP_ICONS[basegroup][0]
        # Folders should only get certain file types applied
        if basegroup == "folder" and ext not in ("app", "bundle", "git"):
            desc, icon = filetypes.GROUP_ICONS[basegroup]
        return FileInfo(dir, name, nameparts, ext, group, desc, icon)
  \<close>
  The loop is \<open>last_known_ext\<close>; the block under \<^verbatim>\<open>if ext:\<close> is \<open>apply_ext\<close> (an
  empty string is false in Python, as \<^verbatim>\<open>None\<close> is).
\<close>

definition last_known_ext :: "filetypes \<Rightarrow> string list \<Rightarrow> string option \<Rightarrow> string option" where
  "last_known_ext ft parts ext0 =
     fold (\<lambda>part e. if TYPE_GROUPS ft part \<noteq> None then Some part else e) parts ext0"

definition apply_ext ::
  "filetypes \<Rightarrow> string \<Rightarrow> string \<Rightarrow> string \<Rightarrow> error + (string \<times> string option \<times> icon)" where
  "apply_ext ft basegroup group0 e =
     (let g = (case TYPE_GROUPS ft e of None \<Rightarrow> group0 | Some g' \<Rightarrow> g')
      in case dict_getitem (GROUP_ICONS ft) g of
           Inl err \<Rightarrow> Inl err
         | Inr (gdesc, gicon) \<Rightarrow>
             (let d = (case FILE_EXTS ft e of None \<Rightarrow> gdesc | Some d' \<Rightarrow> d');
                  i = gicon
              in if d = None
                 then (case dict_getitem (GROUP_ICONS ft) basegroup of
                         Inl err \<Rightarrow> Inl err
                       | Inr (bdesc, bicon) \<Rightarrow> Inr (g, bdesc, i))
                 else Inr (g, d, i)))"

definition get_fileinfo :: "filetypes \<Rightarrow> os_env \<Rightarrow> string \<Rightarrow> error + FileInfo" where
  "get_fileinfo ft os path =
     (let (dir0, name0) = os_path_split path;
          parts = str_split extsep (str_lower os name0);
          ext0 = None;
          basegroup = (if os_path_isdir os path then ''folder'' else ''file'');
          group0 = basegroup
      in case dict_getitem (GROUP_ICONS ft) group0 of
           Inl err \<Rightarrow> Inl err
         | Inr (desc0, icon0) \<Rightarrow>
             (let ext1 = last_known_ext ft parts ext0
              in case (if ext1 \<noteq> None \<and> ext1 \<noteq> Some []
                       then apply_ext ft basegroup group0 (the ext1)
                       else Inr (group0, desc0, icon0)) of
                   Inl err \<Rightarrow> Inl err
                 | Inr (group1, desc1, icon1) \<Rightarrow>
                     (case (if basegroup = ''folder''
                               \<and> ext1 \<notin> set [Some ''app'', Some ''bundle'', Some ''git'']
                            then dict_getitem (GROUP_ICONS ft) basegroup
                            else Inr (desc1, icon1)) of
                        Inl err \<Rightarrow> Inl err
                      | Inr (desc2, icon2) \<Rightarrow>
                          Inr \<lparr>dir = dir0, name = name0, nameparts = parts, ext = ext1,
                               group = group1, desc = desc2, icon = icon2\<rparr>)))"

text \<open>
  A small instance of the three dictionaries and of a device, on which the functions
  are evaluated; the theorems hold for every choice of the dictionaries and of the device.
  On the example device every path below \<^verbatim>\<open>/dirs\<close> is a directory and no other path is,
  and the names are ASCII strings, which \<^verbatim>\<open>lower()\<close> lowers as \<open>ascii_lower\<close> does.
\<close>

definition example_filetypes :: filetypes where
  "example_filetypes =
     \<lparr>TYPE_GROUPS = [''py'' \<mapsto> ''code'', ''txt'' \<mapsto> ''text'', ''html'' \<mapsto> ''code_tags'',
                      ''mp3'' \<mapsto> ''audio'', ''png'' \<mapsto> ''image'', ''app'' \<mapsto> ''app''],
      FILE_EXTS = [''py'' \<mapsto> Some ''Python Script'', ''txt'' \<mapsto> Some ''Plain Text File'',
                   ''html'' \<mapsto> Some ''HTML File'', ''app'' \<mapsto> Some ''App Bundle''],
      GROUP_ICONS = [''file'' \<mapsto> (Some ''File'', Icon ''document''),
                     ''folder'' \<mapsto> (Some ''Folder'', Icon ''folder''),
                     ''code'' \<mapsto> (Some ''Source Code'', Icon ''code''),
                     ''code_tags'' \<mapsto> (Some ''Markup'', Icon ''code_tags''),
                     ''text'' \<mapsto> (Some ''Text'', Icon ''text''),
                     ''audio'' \<mapsto> (Some ''Audio'', Icon ''audio''),
                     ''image'' \<mapsto> (Some ''Image'', Icon ''image''),
                     ''app'' \<mapsto> (Some ''Application'', Icon ''app'')]\<rparr>"

definition example_os :: os_env where
  "example_os =
     \<lparr>os_path_isdir = (\<lambda>p. take 5 p = ''/dirs''),
      os_stat = (\<lambda>p. Inl (OSError 2 ''No such file or directory'' p)),
      os_listdir = (\<lambda>p. Inl (OSError 13 ''Permission denied'' p)),
      os_strerror = (\<lambda>n. if n = 20 then ''Not a directory'' else ''Unknown error''),
      full_path = (\<lambda>p. p),
      rel_to_docs = (\<lambda>p. p),
      rel_to_app = (\<lambda>p. p),
      str_lower = ascii_lower\<rparr>"

section \<open>\<^verbatim>\<open>FileItem\<close>: a path and its cached properties\<close>

text \<open>
  \<^verbatim>\<open>FileItem\<close> objects are mutable and shared: the \<open>contents\<close> list of a directory
  holds names at first and, once a \<^verbatim>\<open>FileDataSource\<close> has gone through it, the
  \<^verbatim>\<open>FileItem\<close> objects made from them, which the data source's own lists hold too. So
  the objects live in a heap, a list of objects, and a reference is an index into it; a new
  object is put at the end. A well-formed state only holds references below the length
  of the heap.

  The attribute \<open>icon\<close> of a \<^verbatim>\<open>FileItem\<close> is the field \<open>item_icon\<close>, since \<open>icon\<close> is
  the field of \<open>FileInfo\<close>. \<open>cls\<close> is the class the object was made as. Before
  \<^verbatim>\<open>reload\<close> has run, only \<open>path\<close> is set; \<open>blank\<close> gives the other fields
  placeholders, which \<^verbatim>\<open>reload\<close> overwrites before anything reads them. When an
  exception leaves a function that changes an object, the result is the exception alone.
\<close>

type_synonym ref = nat

datatype dirent = Name string | Item ref

datatype pyclass = FileItem_class | FileItem_subclass string | Other_class string

datatype pyarg = Str string | Obj ref

record FileItem =
  cls :: pyclass
  path :: string
  constants :: FileInfo
  item_icon :: icon
  icon_cached :: bool
  stat :: "stat_result option"
  basetype :: nat
  contents :: "dirent list option"

type_synonym heap = "FileItem list"

definition issubclass_FileItem :: "pyclass \<Rightarrow> bool" where
  "issubclass_FileItem c = (case c of Other_class n \<Rightarrow> False | _ \<Rightarrow> True)"

definition blank :: "pyclass \<Rightarrow> FileItem" where
  "blank c =
     \<lparr>cls = c, path = [],
      constants = \<lparr>dir = [], name = [], nameparts = [], ext = None, group = [],
                   desc = None, icon = Icon []\<rparr>,
      item_icon = Icon [], icon_cached = False, stat = None, basetype = 1,
      contents = None\<rparr>"

text \<open>
  \<^verbatim>\<open>
    def reload(self):
        assert isinstance(self.path, basestring)
        self.constants = get_fileinfo(self.path)
        self.icon = self.constants.icon
        self.icon_cached = False
        try:
            self.stat = os.stat(self.path)
        except OSError as err:
            self.stat = None
        if os.path.isdir(self.path):
            self.basetype = 0
            try:
                self.contents = os.listdir(self.path)
            except OSError as err:
                self.contents = []
        else:
            self.basetype = 1
            self.contents = None
  \<close>
  \<open>path\<close> is a string by its type, so the assertion holds. An exception of
  \<^verbatim>\<open>os.stat\<close> or \<^verbatim>\<open>os.listdir\<close> that is not an \<open>OSError\<close> is not caught.
\<close>

definition try_stat :: "os_env \<Rightarrow> FileItem \<Rightarrow> error + FileItem" where
  "try_stat os self =
     (case os_stat os (path self) of
        Inr st \<Rightarrow> Inr (self\<lparr>stat := Some st\<rparr>)
      | Inl (OSError n s f) \<Rightarrow> Inr (self\<lparr>stat := None\<rparr>)
      | Inl err \<Rightarrow> Inl err)"

definition try_listdir :: "os_env \<Rightarrow> FileItem \<Rightarrow> error + FileItem" where
  "try_listdir os self =
     (case os_listdir os (path self) of
        Inr names \<Rightarrow> Inr (self\<lparr>contents := Some (map Name names)\<rparr>)
      | Inl (OSError n s f) \<Rightarrow> Inr (self\<lparr>contents := Some []\<rparr>)
      | Inl err \<Rightarrow> Inl err)"

definition FileItem_reload :: "filetypes \<Rightarrow> os_env \<Rightarrow> FileItem \<Rightarrow> error + FileItem" where
  "FileItem_reload ft os self =
     (case get_fileinfo ft os (path self) of
        Inl err \<Rightarrow> Inl err
      | Inr c \<Rightarrow>
          (let self = self\<lparr>constants := c\<rparr>;
               self = self\<lparr>item_icon := icon (constants self)\<rparr>;
               self = self\<lparr>icon_cached := False\<rparr>
           in case try_stat os self of
                Inl err \<Rightarrow> Inl err
              | Inr self \<Rightarrow>
                  if os_path_isdir os (path self)
                  then try_listdir os (self\<lparr>basetype := 0\<rparr>)
                  else Inr (self\<lparr>basetype := 1, contents := None\<rparr>)))"

text \<open>
  \<^verbatim>\<open>
    def __new__(cls, path):
        assert issubclass(cls, FileItem)
        if isinstance(path, FileItem):
            # Allow efficient "conversion" of a FileItem to its own type
            return path
        else:
            self = super(FileItem, cls).__new__(cls)
            self.path = full_path(path)
            self.reload()
            return self
  \<close>
  The argument is a string or a \<^verbatim>\<open>FileItem\<close> object. \<^verbatim>\<open>FileItem\<close> has no
  \<^verbatim>\<open>__init__\<close>, so the call \<^verbatim>\<open>cls(path)\<close> is \<^verbatim>\<open>__new__\<close> and nothing more.
\<close>

definition FileItem_new ::
  "filetypes \<Rightarrow> os_env \<Rightarrow> pyclass \<Rightarrow> pyarg \<Rightarrow> heap \<Rightarrow> error + (ref \<times> heap)" where
  "FileItem_new ft os c arg h =
     (if \<not> issubclass_FileItem c then Inl AssertionError
      else case arg of
             Obj r \<Rightarrow> Inr (r, h)
           | Str p \<Rightarrow>
               (let self = blank c;
                    self = self\<lparr>path := full_path os p\<rparr>
                in case FileItem_reload ft os self of
                     Inl err \<Rightarrow> Inl err
                   | Inr self \<Rightarrow> Inr (length h, h @ [self])))"

text \<open>
  \<^verbatim>\<open>
    def isdir(self):
        return self.basetype == 0

    def isfile(self):
        return self.basetype == 1

    def join(self, *args):
        return os.path.join(self.path, *args)

    def listdir(self):
        if self.isdir():
            return self.contents
        else:
            err = OSError()
            err.errno = errno.ENOTDIR
            err.strerror = os.strerror(err.errno)
            err.filename = self.path
            raise err
  \<close>
  \<^verbatim>\<open>listdir\<close> gives its outcome together with the object as the call leaves it.
  \<^verbatim>\<open>join\<close> is called with one argument.
\<close>

definition ENOTDIR :: nat where
  "ENOTDIR = 20"

definition isdir :: "FileItem \<Rightarrow> bool" where
  "isdir self = (basetype self = 0)"

definition isfile :: "FileItem \<Rightarrow> bool" where
  "isfile self = (basetype self = 1)"

definition join :: "FileItem \<Rightarrow> string \<Rightarrow> string" where
  "join self arg = os_path_join (path self) arg"

definition listdir :: "os_env \<Rightarrow> FileItem \<Rightarrow> (error + dirent list option) \<times> FileItem" where
  "listdir os self =
     (if isdir self then (Inr (contents self), self)
      else (let errno = ENOTDIR;
                strerror = os_strerror os errno;
                filename = path self
            in (Inl (OSError errno strerror filename), self)))"

section \<open>\<^verbatim>\<open>FileDataSource\<close>: the listing of a directory\<close>

text \<open>
  A \<^verbatim>\<open>FileDataSource\<close> holds the \<^verbatim>\<open>FileItem\<close> \<open>fi\<close> of a directory, the lists
  \<open>folders\<close> and \<open>files\<close> that \<^verbatim>\<open>reload\<close> builds, and \<open>lists\<close>, which the constructor
  binds once, after its call of \<^verbatim>\<open>reload\<close>, to the two list objects of that moment
  (\<^verbatim>\<open>None\<close> stands for the attribute not being set yet). \<^verbatim>\<open>reload\<close> binds \<open>folders\<close>
  and \<open>files\<close> to new lists and never touches the old ones again, so \<open>lists\<close> keeps the
  values the two lists had when it was bound. The attribute \<open>app\<close> plays no part here.
  \<^verbatim>\<open>
    def __init__(self, fi, app=None):
        self.fi = fi
        self.app = app
        self.reload()
        self.lists = [self.folders, self.files]

    def reload(self):
        assert isinstance(self.fi, FileItem)
        self.folders = []
        self.files = []
        for i, name in enumerate(self.fi.contents):
            if not isinstance(name, FileItem):
                # If they aren't already, convert contents to FileItems
                name = self.fi.contents[i] = FileItem(self.fi.join(name))
            if name.isdir():
                self.folders.append(name)
            else:
                self.files.append(name)

    def tableview_number_of_sections(self, tableview):
        return len(self.lists)

    def tableview_number_of_rows(self, tableview, section):
        return len(self.lists[section])
  \<close>
  The body of the loop assigns to the entry \<open>i\<close> it is at and to no other, and the new
  \<^verbatim>\<open>FileItem\<close> is a new object, so the entries still to come are those the list had when
  the loop began: \<open>reload_loop\<close> runs through them, counting \<open>i\<close>; \<open>convert_entry\<close>
  is the block under \<^verbatim>\<open>if not isinstance(name, FileItem)\<close>. Iterating over the
  contents \<^verbatim>\<open>None\<close> of a path that is not a directory raises \<open>TypeError\<close>.
\<close>

record FileDataSource =
  fi :: ref
  folders :: "ref list"
  files :: "ref list"
  lists :: "ref list list option"

definition set_content :: "heap \<Rightarrow> ref \<Rightarrow> nat \<Rightarrow> dirent \<Rightarrow> heap" where
  "set_content h r i d =
     h[r := (h ! r)\<lparr>contents := map_option (\<lambda>cs. cs[i := d]) (contents (h ! r))\<rparr>]"

definition convert_entry ::
  "filetypes \<Rightarrow> os_env \<Rightarrow> FileDataSource \<Rightarrow> nat \<Rightarrow> dirent \<Rightarrow> heap \<Rightarrow> error + (ref \<times> heap)" where
  "convert_entry ft os self i entry h =
     (case entry of
        Item r \<Rightarrow> Inr (r, h)
      | Name n \<Rightarrow>
          (case FileItem_new ft os FileItem_class (Str (join (h ! fi self) n)) h of
             Inl err \<Rightarrow> Inl err
           | Inr (r, h') \<Rightarrow> Inr (r, set_content h' (fi self) i (Item r))))"

fun reload_loop ::
  "filetypes \<Rightarrow> os_env \<Rightarrow> nat \<Rightarrow> dirent list \<Rightarrow> FileDataSource \<times> heap
     \<Rightarrow> error + (FileDataSource \<times> heap)" where
  "reload_loop ft os i [] (self, h) = Inr (self, h)"
| "reload_loop ft os i (entry # rest) (self, h) =
     (case convert_entry ft os self i entry h of
        Inl err \<Rightarrow> Inl err
      | Inr (item, h1) \<Rightarrow>
          (let self = (if isdir (h1 ! item)
                       then self\<lparr>folders := folders self @ [item]\<rparr>
                       else self\<lparr>files := files self @ [item]\<rparr>)
           in reload_loop ft os (Suc i) rest (self, h1)))"

definition FileDataSource_reload ::
  "filetypes \<Rightarrow> os_env \<Rightarrow> FileDataSource \<Rightarrow> heap \<Rightarrow> error + (FileDataSource \<times> heap)" where
  "FileDataSource_reload ft os self h =
     (let self = self\<lparr>folders := []\<rparr>;
          self = self\<lparr>files := []\<rparr>
      in case contents (h ! fi self) of
           None \<Rightarrow> Inl TypeError
         | Some cs \<Rightarrow> reload_loop ft os 0 cs (self, h))"

definition FileDataSource_init ::
  "filetypes \<Rightarrow> os_env \<Rightarrow> ref \<Rightarrow> heap \<Rightarrow> error + (FileDataSource \<times> heap)" where
  "FileDataSource_init ft os fi0 h =
     (let self = \<lparr>fi = fi0, folders = [], files = [], lists = None\<rparr>
      in case FileDataSource_reload ft os self h of
           Inl err \<Rightarrow> Inl err
         | Inr (self, h1) \<Rightarrow> Inr (self\<lparr>lists := Some [folders self, files self]\<rparr>, h1))"

definition tableview_number_of_sections :: "FileDataSource \<Rightarrow> error + nat" where
  "tableview_number_of_sections self =
     (case lists self of
        None \<Rightarrow> Inl (AttributeError ''lists'')
      | Some ls \<Rightarrow> Inr (length ls))"

definition tableview_number_of_rows :: "FileDataSource \<Rightarrow> int \<Rightarrow> error + nat" where
  "tableview_number_of_rows self section =
     (case lists self of
        None \<Rightarrow> Inl (AttributeError ''lists'')
      | Some ls \<Rightarrow>
          (case list_getitem ls section of
             Inl err \<Rightarrow> Inl err
           | Inr l \<Rightarrow> Inr (length l)))"

text \<open>
  The references an entry list holds, in order, and the test that an entry is an object.
\<close>

definition item_refs :: "dirent list \<Rightarrow> ref list" where
  "item_refs cs = List.map_filter (\<lambda>d. case d of Item r \<Rightarrow> Some r | Name n \<Rightarrow> None) cs"

definition is_Item :: "dirent \<Rightarrow> bool" where
  "is_Item d = (case d of Item r \<Rightarrow> True | Name n \<Rightarrow> False)"

text \<open>
  The example device with a directory listing: \<^verbatim>\<open>os.listdir\<close> gives \<open>names\<close> for every
  path.
\<close>

definition example_os_listing :: "string list \<Rightarrow> os_env" where
  "example_os_listing names = example_os\<lparr>os_listdir := (\<lambda>p. Inr names)\<rparr>"

section \<open>Selecting a row of a directory listing\<close>












section \<open>\<^verbatim>\<open>format_size\<close>\<close>

text \<open>
  \<^verbatim>\<open>SIZE_SUFFIXES = u"bytes KiB MiB GiB TiB PiB EiB ZiB YiB".split()\<close>
\<close>

definition SIZE_SUFFIXES :: "string list" where
  "SIZE_SUFFIXES =
     [''bytes'', ''KiB'', ''MiB'', ''GiB'', ''TiB'', ''PiB'', ''EiB'', ''ZiB'', ''YiB'']"

text \<open>The decimal digits of an integer, as \<^verbatim>\<open>"{}".format(n)\<close> writes them.\<close>

definition digit_char :: "nat \<Rightarrow> char" where
  "digit_char d = ''0123456789'' ! d"

fun str_of_nat :: "nat \<Rightarrow> string" where
  "str_of_nat n =
     (if n < 10 then [digit_char n] else str_of_nat (n div 10) @ [digit_char (n mod 10)])"

declare str_of_nat.simps [simp del]

definition str_of_int :: "int \<Rightarrow> string" where
  "str_of_int i = (if i < 0 then ''-'' @ str_of_nat (nat (- i)) else str_of_nat (nat i))"

text \<open>
  A Python float is an IEEE double; the model keeps its exact value, a rational number.
  \<^verbatim>\<open>float(n)\<close> is the double nearest to the integer \<open>n\<close>, with ties to the even
  mantissa: an integer of at most 53 bits is kept as it is, a longer one is rounded to
  its leading 53 bits, and \<open>OverflowError\<close> is raised when the result does not fit a
  double. Dividing a double of this range by \<open>1024.0\<close> only lowers its exponent, so the
  quotient is exact.
\<close>

fun bit_length :: "nat \<Rightarrow> nat" where
  "bit_length n = (if n = 0 then 0 else Suc (bit_length (n div 2)))"

declare bit_length.simps [simp del]

definition float_of_nat :: "nat \<Rightarrow> error + rat" where
  "float_of_nat n =
     (let bits = bit_length n
      in if bits \<le> 53 then Inr (of_nat n)
         else (let sh = bits - 53;
                   q = n div 2 ^ sh;
                   r = n mod 2 ^ sh;
                   half = 2 ^ (sh - 1);
                   q = (if half < r \<or> (r = half \<and> odd q) then q + 1 else q);
                   v = q * 2 ^ sh
               in if 2 ^ 1024 \<le> v then Inl OverflowError else Inr (of_nat v)))"

definition py_float :: "int \<Rightarrow> error + rat" where
  "py_float i =
     (case float_of_nat (nat \<bar>i\<bar>) of
        Inl err \<Rightarrow> Inl err
      | Inr v \<Rightarrow> Inr (if i < 0 then - v else v))"

text \<open>
  \<^verbatim>\<open>"{:02.2f}".format(x)\<close>: \<open>x\<close> rounded to two decimals, a tie going to the even
  last digit; the integer part, a point and two digits. The minimum width 2 never asks
  for padding.
\<close>

definition format_2f :: "rat \<Rightarrow> string" where
  "format_2f x =
     (let y = \<bar>x\<bar> * 100;
          fl = \<lfloor>y\<rfloor>;
          frac = y - of_int fl;
          n = nat (if 1 / 2 < frac \<or> (frac = 1 / 2 \<and> odd fl) then fl + 1 else fl)
      in (if x < 0 then ''-'' else '''')
         @ str_of_nat (n div 100) @ ''.''
         @ [digit_char (n mod 100 div 10), digit_char (n mod 10)])"

text \<open>
  \<^verbatim>\<open>
    def format_size(size, longf=True):
        if size < 1024:
            return u"{} bytes".format(size)
        else:
            size, bsize = float(size), int(size)
            for suffix in SIZE_SUFFIXES[1:]:
                size /= 1024.0
                if size < 1024.0:
                    break
            return (
                u"{size:02.2f} {suffix} ({bsize} bytes)"
                if longf else
                u"{size:02.2f} {suffix}"
            ).format(size=size, suffix=suffix, bsize=bsize)
  \<close>
  The argument \<open>size\<close> is an integer, \<open>sz\<close> below. \<open>size_loop\<close> is the \<^verbatim>\<open>for\<close> loop; the variable \<open>suffix\<close> is
  not bound before the first round.
\<close>

fun size_loop :: "rat \<Rightarrow> string option \<Rightarrow> string list \<Rightarrow> rat \<times> string option" where
  "size_loop fsize suffix [] = (fsize, suffix)"
| "size_loop fsize suffix (s # rest) =
     (let fsize = fsize / 1024
      in if fsize < 1024 then (fsize, Some s) else size_loop fsize (Some s) rest)"

definition format_size :: "int \<Rightarrow> bool \<Rightarrow> error + string" where
  "format_size sz longf =
     (if sz < 1024 then Inr (str_of_int sz @ '' bytes'')
      else (case py_float sz of
              Inl err \<Rightarrow> Inl err
            | Inr fsize \<Rightarrow>
                (let bsize = sz
                 in case size_loop fsize None (tl SIZE_SUFFIXES) of
                      (fsize, None) \<Rightarrow> Inl NameError
                    | (fsize, Some suffix) \<Rightarrow>
                        Inr (if longf
                             then format_2f fsize @ '' '' @ suffix
                                  @ '' ('' @ str_of_int bsize @ '' bytes)''
                             else format_2f fsize @ '' '' @ suffix))))"

text \<open>
  The number of hundredths in \<open>m / d\<close>, rounded with ties to even, in integer
  arithmetic: what \<open>format_2f\<close> prints for the fraction \<open>m / d\<close>, as shown below.
\<close>

definition hundredths :: "nat \<Rightarrow> nat \<Rightarrow> nat" where
  "hundredths m d =
     (let a = m * 100; q = a div d; r = a mod d
      in if d < 2 * r \<or> (2 * r = d \<and> odd q) then q + 1 else q)"

section \<open>The favorites list\<close>

text \<open>
  \<^verbatim>\<open>FavoritesDataSource\<close> holds the path \<open>src\<close> of a JSON file and the list \<open>entries\<close>
  that \<^verbatim>\<open>json.load\<close> read from it: a flat array of \<open>[path, label]\<close> pairs. The disk
  maps a path to the favorites document stored there (\<^verbatim>\<open>json.dump\<close> followed by
  \<^verbatim>\<open>json.load\<close> gives the list back, so the document is kept as the list it
  encodes). Opening \<open>src\<close> for writing is taken to succeed. The table view is the log of
  the calls made on it.
\<close>

type_synonym favorite = "string \<times> string"

type_synonym disk = "string \<rightharpoonup> favorite list"

datatype tableview_call = Delete_rows "int list"

record FavoritesDataSource =
  src :: string
  entries :: "favorite list"

text \<open>
  \<^verbatim>\<open>
    def tableview_delete(self, tableview, section, row):
        del self.entries[row]
        tableview.delete_rows([row])
        with open(self.src, "w") as f:
            json.dump(self.entries, f, indent=4)
  \<close>
\<close>

definition tableview_delete ::
  "FavoritesDataSource \<Rightarrow> tableview_call list \<Rightarrow> disk \<Rightarrow> int \<Rightarrow> int
     \<Rightarrow> error + (FavoritesDataSource \<times> tableview_call list \<times> disk)" where
  "tableview_delete self tableview d section row =
     (case list_delitem (entries self) row of
        Inl e \<Rightarrow> Inl e
      | Inr es \<Rightarrow>
          (let self = self\<lparr>entries := es\<rparr>;
               tableview = tableview @ [Delete_rows [row]]
           in Inr (self, tableview, d(src self \<mapsto> entries self))))"

text \<open>
  \<^verbatim>\<open>
    def tableview_move_row(self, tableview, from_section, from_row, to_section, to_row):
        self.entries.insert(to_row, self.entries.pop(from_row))
        with open(self.src, "w") as f:
            json.dump(self.entries, f, indent=4)
  \<close>
\<close>

definition tableview_move_row ::
  "FavoritesDataSource \<Rightarrow> disk \<Rightarrow> int \<Rightarrow> int \<Rightarrow> int \<Rightarrow> int
     \<Rightarrow> error + (FavoritesDataSource \<times> disk)" where
  "tableview_move_row self d from_section from_row to_section to_row =
     (case list_pop (entries self) from_row of
        Inl e \<Rightarrow> Inl e
      | Inr (x, es) \<Rightarrow>
          (let self = self\<lparr>entries := list_insert es to_row x\<rparr>
           in Inr (self, d(src self \<mapsto> entries self))))"

section \<open>Properties of \<^verbatim>\<open>get_fileinfo\<close>\<close>

lemma str_split_not_Nil: "str_split sep s \<noteq> []"
  by (induction s) (auto split: list.splits)

lemma str_split_no_sep: "sep \<notin> set s \<Longrightarrow> str_split sep s = [s]"
  by (induction s) auto

lemma str_split_sep: "sep \<in> set s \<Longrightarrow> \<exists>p q qs. str_split sep s = p # q # qs"
proof (induction s)
  case Nil
  then show ?case by simp
next
  case (Cons c cs)
  show ?case
  proof (cases "c = sep")
    case True
    then show ?thesis
      using str_split_not_Nil[of sep cs] by (cases "str_split sep cs") auto
  next
    case False
    then have "sep \<in> set cs" using Cons.prems by simp
    then obtain p q qs where "str_split sep cs = p # q # qs"
      using Cons.IH by blast
    then show ?thesis using False by simp
  qed
qed

text \<open>
  The trailing piece of \<^verbatim>\<open>s.split(sep)\<close> is the suffix of \<open>s\<close> after its last \<open>sep\<close>
  (all of \<open>s\<close> when there is none).
\<close>

lemma last_str_split:
  "last (str_split sep s) = rev (takeWhile (\<lambda>c. c \<noteq> sep) (rev s))"
proof (induction s)
  case Nil
  show ?case by simp
next
  case (Cons c cs)
  show ?case
  proof (cases "c = sep")
    case True
    then show ?thesis
      using Cons str_split_not_Nil[of sep cs] by (simp add: takeWhile_append)
  next
    case False
    show ?thesis
    proof (cases "sep \<in> set cs")
      case True
      then obtain p q qs where "str_split sep cs = p # q # qs"
        using str_split_sep by blast
      then show ?thesis
        using False True Cons by (auto simp: takeWhile_append)
    next
      case nosep: False
      then show ?thesis
        using False by (simp add: str_split_no_sep takeWhile_append)
    qed
  qed
qed

lemma last_known_ext_snoc:
  "last_known_ext ft (xs @ [x]) e0
     = (if TYPE_GROUPS ft x \<noteq> None then Some x else last_known_ext ft xs e0)"
  by (simp add: last_known_ext_def)

lemma last_known_ext_last:
  assumes "parts \<noteq> []" and "TYPE_GROUPS ft (last parts) = Some g"
  shows "last_known_ext ft parts e0 = Some (last parts)"
proof -
  have "last_known_ext ft (butlast parts @ [last parts]) e0 = Some (last parts)"
    using assms(2) by (simp only: last_known_ext_snoc) simp
  then show ?thesis
    using assms(1) by simp
qed

lemma apply_ext_known:
  assumes "TYPE_GROUPS ft e = Some g"
    and "GROUP_ICONS ft g = Some (gdesc, gicon)"
    and "GROUP_ICONS ft basegroup = Some (bdesc, bicon)"
  shows "apply_ext ft basegroup group0 e
         = Inr (g,
                (case (case FILE_EXTS ft e of None \<Rightarrow> gdesc | Some d \<Rightarrow> d) of
                   None \<Rightarrow> bdesc
                 | Some d \<Rightarrow> Some d),
                gicon)"
  using assms by (simp add: apply_ext_def dict_getitem_def Let_def split: option.splits)

text \<open>
  C1. \<^verbatim>\<open>get_fileinfo\<close> finds the file type by matching the pieces of the lowercased
  file name against the keys of \<open>TYPE_GROUPS\<close>. Let \<open>e\<close> be the trailing piece: the suffix
  of the lowercased name after its last dot. When \<open>e\<close> is a non-empty key of
  \<open>TYPE_GROUPS\<close> and \<open>GROUP_ICONS\<close> has the groups involved, \<^verbatim>\<open>get_fileinfo\<close> returns
  with \<open>ext = e\<close> and \<open>group = TYPE_GROUPS[e]\<close>. For a path that is not a directory, and
  for a directory whose \<open>e\<close> is \<open>app\<close>, \<open>bundle\<close> or \<open>git\<close>, the description is
  \<open>FILE_EXTS[e]\<close> (the description of the group when \<open>e\<close> is not a key of \<open>FILE_EXTS\<close>,
  the description of the base group \<open>file\<close> or \<open>folder\<close> when that is \<^verbatim>\<open>None\<close>) and the
  icon is the icon of the group. For any other directory the description and the icon
  are those of the base group \<open>folder\<close>, whatever the suffix is.
\<close>

theorem get_fileinfo_by_suffix:
  assumes e: "e = last (str_split extsep (str_lower os (snd (os_path_split p))))"
    and key: "TYPE_GROUPS ft e = Some g"
    and ne: "e \<noteq> []"
    and gi: "GROUP_ICONS ft g = Some (gdesc, gicon)"
    and bi: "GROUP_ICONS ft (if os_path_isdir os p then ''folder'' else ''file'')
               = Some (bdesc, bicon)"
  shows "e = rev (takeWhile (\<lambda>c. c \<noteq> CHR ''.'') (rev (str_lower os (snd (os_path_split p)))))
       \<and> get_fileinfo ft os p =
           Inr \<lparr>dir = fst (os_path_split p),
                name = snd (os_path_split p),
                nameparts = str_split extsep (str_lower os (snd (os_path_split p))),
                ext = Some e,
                group = g,
                desc = (if os_path_isdir os p \<and> e \<notin> set [''app'', ''bundle'', ''git'']
                        then bdesc
                        else (case (case FILE_EXTS ft e of None \<Rightarrow> gdesc | Some d \<Rightarrow> d) of
                                None \<Rightarrow> bdesc
                              | Some d \<Rightarrow> Some d)),
                icon = (if os_path_isdir os p \<and> e \<notin> set [''app'', ''bundle'', ''git'']
                        then bicon
                        else gicon)\<rparr>"
proof -
  let ?name = "snd (os_path_split p)"
  let ?parts = "str_split extsep (str_lower os ?name)"
  let ?base = "if os_path_isdir os p then ''folder'' else ''file''"
  have suffix: "e = rev (takeWhile (\<lambda>c. c \<noteq> CHR ''.'') (rev (str_lower os ?name)))"
    unfolding e by (simp only: last_str_split extsep_def)
  have ext1: "last_known_ext ft ?parts None = Some e"
    using last_known_ext_last[OF str_split_not_Nil, of ft extsep "str_lower os ?name" g None] key e
    by simp
  have base: "dict_getitem (GROUP_ICONS ft) ?base = Inr (bdesc, bicon)"
    using bi by (simp add: dict_getitem_def)
  have app: "apply_ext ft ?base ?base e
         = Inr (g,
                (case (case FILE_EXTS ft e of None \<Rightarrow> gdesc | Some d \<Rightarrow> d) of
                   None \<Rightarrow> bdesc
                 | Some d \<Rightarrow> Some d),
                gicon)"
    using key gi bi by (rule apply_ext_known)
  have run: "get_fileinfo ft os p =
           Inr \<lparr>dir = fst (os_path_split p),
                name = ?name,
                nameparts = ?parts,
                ext = Some e,
                group = g,
                desc = (if os_path_isdir os p \<and> e \<notin> set [''app'', ''bundle'', ''git'']
                        then bdesc
                        else (case (case FILE_EXTS ft e of None \<Rightarrow> gdesc | Some d \<Rightarrow> d) of
                                None \<Rightarrow> bdesc
                              | Some d \<Rightarrow> Some d)),
                icon = (if os_path_isdir os p \<and> e \<notin> set [''app'', ''bundle'', ''git'']
                        then bicon
                        else gicon)\<rparr>"
  proof (cases "os_path_isdir os p")
    case True
    then show ?thesis
      using ext1 base app ne
      by (simp add: get_fileinfo_def Let_def case_prod_beta)
  next
    case False
    then show ?thesis
      using ext1 base app ne
      by (simp add: get_fileinfo_def Let_def case_prod_beta)
  qed
  show ?thesis
    using suffix run by blast
qed

theorem get_fileinfo_by_suffix_witness:
  "get_fileinfo example_filetypes example_os ''/docs/Notes.TXT''
     = Inr \<lparr>dir = ''/docs'', name = ''Notes.TXT'', nameparts = [''notes'', ''txt''],
            ext = Some ''txt'', group = ''text'', desc = Some ''Plain Text File'',
            icon = Icon ''text''\<rparr>"
  using get_fileinfo_by_suffix
    [where e = "''txt''" and p = "''/docs/Notes.TXT''" and ft = example_filetypes
       and g = "''text''" and gdesc = "Some ''Text''" and gicon = "Icon ''text''"
       and os = example_os and bdesc = "Some ''File''" and bicon = "Icon ''document''"]
  by (simp add: example_filetypes_def example_os_def os_path_split_def ascii_lower_def
        ascii_lower_char_def extsep_def)

text \<open>
  The directory \<^verbatim>\<open>/dirs/Notes.TXT\<close> has the trailing piece \<open>txt\<close>, a key of
  \<open>TYPE_GROUPS\<close>; its description and icon are not those found under \<open>txt\<close>
  (\<open>Plain Text File\<close> and the icon of the group \<open>text\<close>) but those of \<open>folder\<close>.
\<close>

theorem get_fileinfo_folder_counterexample:
  "last (str_split extsep (str_lower example_os (snd (os_path_split ''/dirs/Notes.TXT'')))) = ''txt''
   \<and> TYPE_GROUPS example_filetypes ''txt'' = Some ''text''
   \<and> FILE_EXTS example_filetypes ''txt'' = Some (Some ''Plain Text File'')
   \<and> GROUP_ICONS example_filetypes ''text'' = Some (Some ''Text'', Icon ''text'')
   \<and> get_fileinfo example_filetypes example_os ''/dirs/Notes.TXT''
       = Inr \<lparr>dir = ''/dirs'', name = ''Notes.TXT'', nameparts = [''notes'', ''txt''],
              ext = Some ''txt'', group = ''text'', desc = Some ''Folder'',
              icon = Icon ''folder''\<rparr>"
  by (simp add: get_fileinfo_def example_filetypes_def example_os_def os_path_split_def
        ascii_lower_def ascii_lower_char_def extsep_def last_known_ext_def apply_ext_def
        dict_getitem_def Let_def)

lemma get_fileinfo_cong:
  assumes "snd (os_path_split p1) = snd (os_path_split p2)"
    and "os_path_isdir os p1 = os_path_isdir os p2"
  shows "get_fileinfo ft os p1
         = map_sum id (\<lambda>f. f\<lparr>dir := fst (os_path_split p1)\<rparr>) (get_fileinfo ft os p2)"
  using assms
  by (simp add: get_fileinfo_def Let_def case_prod_beta split: sum.splits prod.splits)

text \<open>
  C4. The display metadata depends on the path only through its final component and
  through \<^verbatim>\<open>os.path.isdir(path)\<close>: for two paths with equal final components that are
  both directories or both not directories, \<^verbatim>\<open>get_fileinfo\<close> raises the same error on
  both or returns on both, and the two \<open>FileInfo\<close> values have equal \<open>name\<close>,
  \<open>nameparts\<close>, \<open>ext\<close>, \<open>group\<close>, \<open>desc\<close> and \<open>icon\<close> (only \<open>dir\<close> may differ).
\<close>

theorem get_fileinfo_same_name:
  assumes "snd (os_path_split p1) = snd (os_path_split p2)"
    and "os_path_isdir os p1 = os_path_isdir os p2"
  shows "(\<forall>err. (get_fileinfo ft os p1 = Inl err) = (get_fileinfo ft os p2 = Inl err))
       \<and> (\<forall>f1. get_fileinfo ft os p1 = Inr f1 \<longrightarrow>
            (\<exists>f2. get_fileinfo ft os p2 = Inr f2
                \<and> name f1 = name f2 \<and> nameparts f1 = nameparts f2 \<and> ext f1 = ext f2
                \<and> group f1 = group f2 \<and> desc f1 = desc f2 \<and> icon f1 = icon f2))"
proof -
  have eq: "get_fileinfo ft os p1
         = map_sum id (\<lambda>f. f\<lparr>dir := fst (os_path_split p1)\<rparr>) (get_fileinfo ft os p2)"
    using assms by (rule get_fileinfo_cong)
  show ?thesis
    unfolding eq by (cases "get_fileinfo ft os p2") auto
qed

theorem get_fileinfo_same_name_witness:
  "\<exists>f1 f2. get_fileinfo example_filetypes example_os ''/docs/a/Notes.TXT'' = Inr f1
     \<and> get_fileinfo example_filetypes example_os ''/docs/b/Notes.TXT'' = Inr f2
     \<and> dir f1 = ''/docs/a'' \<and> dir f2 = ''/docs/b''
     \<and> name f1 = name f2 \<and> nameparts f1 = nameparts f2 \<and> ext f1 = ext f2
     \<and> group f1 = group f2 \<and> desc f1 = desc f2 \<and> icon f1 = icon f2"
proof -
  have run: "get_fileinfo example_filetypes example_os ''/docs/a/Notes.TXT''
     = Inr \<lparr>dir = ''/docs/a'', name = ''Notes.TXT'', nameparts = [''notes'', ''txt''],
            ext = Some ''txt'', group = ''text'', desc = Some ''Plain Text File'',
            icon = Icon ''text''\<rparr>"
    by (simp add: get_fileinfo_def example_filetypes_def example_os_def os_path_split_def
        ascii_lower_def ascii_lower_char_def extsep_def last_known_ext_def apply_ext_def
        dict_getitem_def Let_def)
  have run2: "dir (projr (get_fileinfo example_filetypes example_os ''/docs/b/Notes.TXT'')) = ''/docs/b''"
    by (simp add: get_fileinfo_def example_filetypes_def example_os_def os_path_split_def
        ascii_lower_def ascii_lower_char_def extsep_def last_known_ext_def apply_ext_def
        dict_getitem_def Let_def)
  have same: "snd (os_path_split ''/docs/a/Notes.TXT'') = snd (os_path_split ''/docs/b/Notes.TXT'')"
    by (simp add: os_path_split_def)
  have dirs: "os_path_isdir example_os ''/docs/a/Notes.TXT''
            = os_path_isdir example_os ''/docs/b/Notes.TXT''"
    by (simp add: example_os_def)
  show ?thesis
    using get_fileinfo_same_name[OF same dirs, of example_filetypes] run run2
    by auto
qed

text \<open>
  The file \<^verbatim>\<open>/docs/data\<close> and the directory \<^verbatim>\<open>/dirs/data\<close> have the same final
  component and differ in \<open>group\<close>, \<open>desc\<close> and \<open>icon\<close>.
\<close>

theorem get_fileinfo_isdir_counterexample:
  "snd (os_path_split ''/docs/data'') = snd (os_path_split ''/dirs/data'')
   \<and> get_fileinfo example_filetypes example_os ''/docs/data''
       = Inr \<lparr>dir = ''/docs'', name = ''data'', nameparts = [''data''], ext = None,
              group = ''file'', desc = Some ''File'', icon = Icon ''document''\<rparr>
   \<and> get_fileinfo example_filetypes example_os ''/dirs/data''
       = Inr \<lparr>dir = ''/dirs'', name = ''data'', nameparts = [''data''], ext = None,
              group = ''folder'', desc = Some ''Folder'', icon = Icon ''folder''\<rparr>"
  by (simp add: get_fileinfo_def example_filetypes_def example_os_def os_path_split_def
        ascii_lower_def ascii_lower_char_def extsep_def last_known_ext_def apply_ext_def
        dict_getitem_def Let_def)

section \<open>Properties of \<^verbatim>\<open>FileItem.reload\<close>\<close>

lemma dict_getitem_not_OSError: "dict_getitem m k \<noteq> Inl (OSError n s f)"
  by (simp add: dict_getitem_def split: option.splits)

lemma apply_ext_not_OSError: "apply_ext ft b g0 e \<noteq> Inl (OSError n s f)"
  using dict_getitem_not_OSError[of "GROUP_ICONS ft"]
  by (auto simp: apply_ext_def Let_def split: sum.splits prod.splits if_splits)

lemma get_fileinfo_not_OSError: "get_fileinfo ft os p \<noteq> Inl (OSError n s f)"
  using dict_getitem_not_OSError[of "GROUP_ICONS ft"] apply_ext_not_OSError[of ft]
  by (auto simp: get_fileinfo_def Let_def split: sum.splits prod.splits if_splits)

lemma try_stat_not_OSError: "try_stat os self \<noteq> Inl (OSError n s f)"
  by (simp add: try_stat_def split: sum.splits error.splits)

lemma try_listdir_not_OSError: "try_listdir os self \<noteq> Inl (OSError n s f)"
  by (simp add: try_listdir_def split: sum.splits error.splits)

lemma FileItem_reload_not_OSError: "FileItem_reload ft os self \<noteq> Inl (OSError n s f)"
  using get_fileinfo_not_OSError[of ft os "path self"] try_stat_not_OSError[of os]
    try_listdir_not_OSError[of os]
  by (auto simp: FileItem_reload_def Let_def split: sum.splits)

lemma try_stat_OSError:
  "os_stat os (path self) = Inl e \<Longrightarrow> is_OSError e \<Longrightarrow> try_stat os self = Inr (self\<lparr>stat := None\<rparr>)"
  by (cases e) (simp_all add: try_stat_def is_OSError_def)

lemma try_listdir_OSError:
  "os_listdir os (path self) = Inl e \<Longrightarrow> is_OSError e
     \<Longrightarrow> try_listdir os self = Inr (self\<lparr>contents := Some []\<rparr>)"
  by (cases e) (simp_all add: try_listdir_def is_OSError_def)

text \<open>
  C7. \<^verbatim>\<open>FileItem.reload\<close> never lets an \<open>OSError\<close> out. When \<^verbatim>\<open>get_fileinfo\<close> returns
  and \<^verbatim>\<open>os.stat\<close> and \<^verbatim>\<open>os.listdir\<close> fail with nothing but \<open>OSError\<close>, \<^verbatim>\<open>reload\<close>
  returns normally: \<open>stat\<close> is the result of \<^verbatim>\<open>os.stat\<close>, or \<^verbatim>\<open>None\<close> when it failed;
  for a directory \<open>basetype\<close> is 0 and \<open>contents\<close> is the listing, or the empty list when
  \<^verbatim>\<open>os.listdir\<close> failed; for any other path \<open>basetype\<close> is 1 and \<open>contents\<close> is
  \<^verbatim>\<open>None\<close>; \<open>constants\<close> and the icon come from \<^verbatim>\<open>get_fileinfo\<close>, the icon is marked as not
  cached, and \<open>path\<close> and the class stay as they are.
\<close>

theorem FileItem_reload_catches_OSError:
  "(\<forall>n s f. FileItem_reload ft os self \<noteq> Inl (OSError n s f))
   \<and> (\<forall>c. get_fileinfo ft os (path self) = Inr c
          \<and> (\<forall>e. os_stat os (path self) = Inl e \<longrightarrow> is_OSError e)
          \<and> (\<forall>e. os_listdir os (path self) = Inl e \<longrightarrow> is_OSError e)
        \<longrightarrow> FileItem_reload ft os self =
             Inr (self\<lparr>constants := c, item_icon := icon c, icon_cached := False,
                       stat := (case os_stat os (path self) of
                                  Inl e \<Rightarrow> None | Inr st \<Rightarrow> Some st),
                       basetype := (if os_path_isdir os (path self) then 0 else 1),
                       contents := (if os_path_isdir os (path self)
                                    then (case os_listdir os (path self) of
                                            Inl e \<Rightarrow> Some []
                                          | Inr names \<Rightarrow> Some (map Name names))
                                    else None)\<rparr>))"
proof (intro conjI allI impI)
  fix n s f
  show "FileItem_reload ft os self \<noteq> Inl (OSError n s f)"
    by (rule FileItem_reload_not_OSError)
next
  fix c
  assume a: "get_fileinfo ft os (path self) = Inr c
          \<and> (\<forall>e. os_stat os (path self) = Inl e \<longrightarrow> is_OSError e)
          \<and> (\<forall>e. os_listdir os (path self) = Inl e \<longrightarrow> is_OSError e)"
  let ?s1 = "self\<lparr>constants := c, item_icon := icon c, icon_cached := False\<rparr>"
  have st: "try_stat os ?s1 = Inr (?s1\<lparr>stat := (case os_stat os (path self) of
                                  Inl e \<Rightarrow> None | Inr st \<Rightarrow> Some st)\<rparr>)"
  proof (cases "os_stat os (path self)")
    case (Inl e)
    then show ?thesis using a try_stat_OSError[of os ?s1 e] by simp
  next
    case (Inr st)
    then show ?thesis by (simp add: try_stat_def)
  qed
  have ls: "\<And>s2. path s2 = path self \<Longrightarrow> try_listdir os s2
        = Inr (s2\<lparr>contents := (case os_listdir os (path self) of
                                            Inl e \<Rightarrow> Some []
                                          | Inr names \<Rightarrow> Some (map Name names))\<rparr>)"
  proof -
    fix s2 :: FileItem
    assume p: "path s2 = path self"
    show "try_listdir os s2
        = Inr (s2\<lparr>contents := (case os_listdir os (path self) of
                                            Inl e \<Rightarrow> Some []
                                          | Inr names \<Rightarrow> Some (map Name names))\<rparr>)"
    proof (cases "os_listdir os (path self)")
      case (Inl e)
      then show ?thesis using a p try_listdir_OSError[of os s2 e] by simp
    next
      case (Inr names)
      then show ?thesis using p by (simp add: try_listdir_def)
    qed
  qed
  show "FileItem_reload ft os self =
             Inr (self\<lparr>constants := c, item_icon := icon c, icon_cached := False,
                       stat := (case os_stat os (path self) of
                                  Inl e \<Rightarrow> None | Inr st \<Rightarrow> Some st),
                       basetype := (if os_path_isdir os (path self) then 0 else 1),
                       contents := (if os_path_isdir os (path self)
                                    then (case os_listdir os (path self) of
                                            Inl e \<Rightarrow> Some []
                                          | Inr names \<Rightarrow> Some (map Name names))
                                    else None)\<rparr>)"
    using a st by (simp add: FileItem_reload_def Let_def ls)
qed

theorem FileItem_reload_catches_OSError_witness:
  "\<exists>self'. FileItem_reload example_filetypes example_os
               ((blank FileItem_class)\<lparr>path := ''/dirs/Music''\<rparr>) = Inr self'
     \<and> os_stat example_os ''/dirs/Music'' = Inl (OSError 2 ''No such file or directory'' ''/dirs/Music'')
     \<and> os_listdir example_os ''/dirs/Music'' = Inl (OSError 13 ''Permission denied'' ''/dirs/Music'')
     \<and> stat self' = None \<and> basetype self' = 0 \<and> contents self' = Some []"
proof -
  have info: "get_fileinfo example_filetypes example_os ''/dirs/Music''
     = Inr \<lparr>dir = ''/dirs'', name = ''Music'', nameparts = [''music''], ext = None,
            group = ''folder'', desc = Some ''Folder'', icon = Icon ''folder''\<rparr>"
    by (simp add: get_fileinfo_def example_filetypes_def example_os_def os_path_split_def
        ascii_lower_def ascii_lower_char_def extsep_def last_known_ext_def apply_ext_def
        dict_getitem_def Let_def)
  have env: "os_stat example_os ''/dirs/Music'' = Inl (OSError 2 ''No such file or directory'' ''/dirs/Music'')"
    "os_listdir example_os ''/dirs/Music'' = Inl (OSError 13 ''Permission denied'' ''/dirs/Music'')"
    "os_path_isdir example_os ''/dirs/Music''"
    by (simp_all add: example_os_def)
  show ?thesis
    using FileItem_reload_catches_OSError
      [of example_filetypes example_os "(blank FileItem_class)\<lparr>path := ''/dirs/Music''\<rparr>"]
      info env
    by (simp add: is_OSError_def)
qed

section \<open>Properties of \<^verbatim>\<open>FileItem.listdir\<close> and of \<^verbatim>\<open>FileItem.__new__\<close>\<close>

text \<open>
  C8. \<^verbatim>\<open>listdir()\<close> returns the cached \<open>contents\<close> exactly when \<^verbatim>\<open>isdir()\<close> is true, and
  raises an \<open>OSError\<close> with \<open>errno = ENOTDIR\<close>, the message of that number and
  \<open>filename = path\<close> exactly when it is false; it returns in the first case only and
  raises in the second only, and either way the object is left as it was.
\<close>

theorem listdir_iff_isdir:
  "(fst (listdir os self) = Inr (contents self)) = isdir self
   \<and> (fst (listdir os self) = Inl (OSError ENOTDIR (os_strerror os ENOTDIR) (path self)))
       = (\<not> isdir self)
   \<and> (\<exists>r. fst (listdir os self) = Inr r) = isdir self
   \<and> (\<exists>n s f. fst (listdir os self) = Inl (OSError n s f)) = (\<not> isdir self)
   \<and> snd (listdir os self) = self"
  by (simp add: listdir_def Let_def)

text \<open>
  C9. Making a \<^verbatim>\<open>FileItem\<close> from a \<^verbatim>\<open>FileItem\<close> is the identity: for every class
  \<open>c\<close> that is \<^verbatim>\<open>FileItem\<close> or a subclass of it and every object \<open>x\<close>, \<^verbatim>\<open>c(x)\<close> returns
  the reference \<open>x\<close> itself and leaves the heap as it was. So when \<^verbatim>\<open>FileItem(p)\<close> has
  returned an object, \<^verbatim>\<open>c\<close> applied to it returns that same object, unchanged.
\<close>

theorem FileItem_new_identity:
  assumes "issubclass_FileItem c"
  shows "FileItem_new ft os c (Obj x) h = Inr (x, h)
       \<and> (\<forall>c0 p r h'. FileItem_new ft os c0 (Str p) h = Inr (r, h')
            \<longrightarrow> FileItem_new ft os c (Obj r) h' = Inr (r, h'))"
  using assms by (simp add: FileItem_new_def)

theorem FileItem_new_identity_witness:
  "\<exists>r h'. FileItem_new example_filetypes example_os FileItem_class (Str ''/docs/a.py'') [] = Inr (r, h')
      \<and> r = 0 \<and> length h' = 1 \<and> path (h' ! r) = ''/docs/a.py''
      \<and> FileItem_new example_filetypes example_os (FileItem_subclass ''Sub'') (Obj r) h' = Inr (r, h')"
proof -
  have info: "get_fileinfo example_filetypes example_os ''/docs/a.py''
     = Inr \<lparr>dir = ''/docs'', name = ''a.py'', nameparts = [''a'', ''py''], ext = Some ''py'',
            group = ''code'', desc = Some ''Python Script'', icon = Icon ''code''\<rparr>"
    by (simp add: get_fileinfo_def example_filetypes_def example_os_def os_path_split_def
        ascii_lower_def ascii_lower_char_def extsep_def last_known_ext_def apply_ext_def
        dict_getitem_def Let_def)
  have env: "full_path example_os ''/docs/a.py'' = ''/docs/a.py''"
    "os_stat example_os ''/docs/a.py'' = Inl (OSError 2 ''No such file or directory'' ''/docs/a.py'')"
    "\<not> os_path_isdir example_os ''/docs/a.py''"
    by (simp_all add: example_os_def)
  have sub: "issubclass_FileItem (FileItem_subclass ''Sub'')"
    by (simp add: issubclass_FileItem_def)
  have new: "\<exists>self. FileItem_new example_filetypes example_os FileItem_class (Str ''/docs/a.py'') []
      = Inr (0, [self]) \<and> path self = ''/docs/a.py''"
    using info env
    by (simp add: FileItem_new_def issubclass_FileItem_def FileItem_reload_def try_stat_def
          blank_def Let_def)
  then obtain self where
    s: "FileItem_new example_filetypes example_os FileItem_class (Str ''/docs/a.py'') [] = Inr (0, [self])"
       "path self = ''/docs/a.py''"
    by blast
  show ?thesis
    using FileItem_new_identity[OF sub, of example_filetypes example_os 0 "[self]"] s
    by simp
qed

section \<open>Properties of \<^verbatim>\<open>FileDataSource.reload\<close>\<close>

lemma FileItem_new_Str:
  assumes "FileItem_new ft os c (Str p) h = Inr (r, h')"
  shows "r = length h \<and> (\<exists>obj. h' = h @ [obj])"
  using assms
  by (auto simp: FileItem_new_def Let_def split: if_splits sum.splits)

lemma convert_entry_step:
  assumes run: "convert_entry ft os self i entry h = Inr (item, h1)"
    and f: "fi self < length h"
    and c: "contents (h ! fi self) = Some (pre @ entry # post)"
    and i: "length pre = i"
    and v: "\<forall>r. entry = Item r \<longrightarrow> r < length h"
  shows "item < length h1
       \<and> length h \<le> length h1
       \<and> (\<forall>r<length h. basetype (h1 ! r) = basetype (h ! r))
       \<and> contents (h1 ! fi self) = Some (pre @ Item item # post)"
proof (cases entry)
  case (Item r)
  then show ?thesis
    using run c v by (simp add: convert_entry_def)
next
  case (Name n)
  then obtain h' where new: "FileItem_new ft os FileItem_class (Str (join (h ! fi self) n)) h = Inr (item, h')"
    and h1: "h1 = set_content h' (fi self) i (Item item)"
    using run by (auto simp: convert_entry_def split: sum.splits)
  obtain obj where item: "item = length h" and h': "h' = h @ [obj]"
    using FileItem_new_Str[OF new] by blast
  have upd: "(pre @ entry # post)[i := Item item] = pre @ Item item # post"
    unfolding i[symmetric] by (rule list_update_length)
  have h1': "h1 = (h @ [obj])[fi self := (h ! fi self)\<lparr>contents := Some (pre @ Item item # post)\<rparr>]"
    using f c upd by (simp add: h1 h' set_content_def nth_append)
  have len: "length h1 = Suc (length h)"
    by (simp add: h1')
  have base: "\<forall>r<length h. basetype (h1 ! r) = basetype (h ! r)"
    using f by (auto simp: h1' nth_list_update nth_append)
  have cont: "contents (h1 ! fi self) = Some (pre @ Item item # post)"
    using f by (simp add: h1' nth_list_update)
  show ?thesis
    using item len base cont by simp
qed

lemma reload_loop_partition:
  assumes "reload_loop ft os i cs (self, h) = Inr (self', h')"
    and "fi self < length h"
    and "contents (h ! fi self) = Some (pre @ cs @ post)"
    and "length pre = i"
    and "\<forall>r. Item r \<in> set cs \<longrightarrow> r < length h"
  shows "\<exists>rs. length rs = length cs
           \<and> contents (h' ! fi self) = Some (pre @ map Item rs @ post)
           \<and> (\<forall>r\<in>set rs. r < length h')
           \<and> folders self' = folders self @ filter (\<lambda>r. isdir (h' ! r)) rs
           \<and> files self' = files self @ filter (\<lambda>r. \<not> isdir (h' ! r)) rs
           \<and> fi self' = fi self \<and> lists self' = lists self
           \<and> length h \<le> length h'
           \<and> (\<forall>r<length h. basetype (h' ! r) = basetype (h ! r))"
  using assms
proof (induction cs arbitrary: i self h pre)
  case Nil
  then show ?case by simp
next
  case (Cons entry rest)
  obtain item h1 where step: "convert_entry ft os self i entry h = Inr (item, h1)"
    using Cons.prems(1) by (auto split: sum.splits)
  define self1 where "self1 = (if isdir (h1 ! item)
                       then self\<lparr>folders := folders self @ [item]\<rparr>
                       else self\<lparr>files := files self @ [item]\<rparr>)"
  have rec: "reload_loop ft os (Suc i) rest (self1, h1) = Inr (self', h')"
    using Cons.prems(1) step by (simp add: self1_def Let_def)
  have fi1: "fi self1 = fi self" and l1: "lists self1 = lists self"
    by (simp_all add: self1_def)
  have s: "item < length h1 \<and> length h \<le> length h1
       \<and> (\<forall>r<length h. basetype (h1 ! r) = basetype (h ! r))
       \<and> contents (h1 ! fi self) = Some (pre @ Item item # (rest @ post))"
    using convert_entry_step[OF step Cons.prems(2), of pre "rest @ post"] Cons.prems(3,4,5)
    by simp
  have "\<exists>rs. length rs = length rest
           \<and> contents (h' ! fi self1) = Some ((pre @ [Item item]) @ map Item rs @ post)
           \<and> (\<forall>r\<in>set rs. r < length h')
           \<and> folders self' = folders self1 @ filter (\<lambda>r. isdir (h' ! r)) rs
           \<and> files self' = files self1 @ filter (\<lambda>r. \<not> isdir (h' ! r)) rs
           \<and> fi self' = fi self1 \<and> lists self' = lists self1
           \<and> length h1 \<le> length h'
           \<and> (\<forall>r<length h1. basetype (h' ! r) = basetype (h1 ! r))"
  proof (rule Cons.IH[OF rec])
    show "fi self1 < length h1" using s Cons.prems(2) fi1 by simp
    show "contents (h1 ! fi self1) = Some ((pre @ [Item item]) @ rest @ post)"
      using s fi1 by simp
    show "length (pre @ [Item item]) = Suc i" using Cons.prems(4) by simp
    show "\<forall>r. Item r \<in> set rest \<longrightarrow> r < length h1"
      using Cons.prems(5) s by fastforce
  qed
  then obtain rs where rs: "length rs = length rest"
      "contents (h' ! fi self1) = Some ((pre @ [Item item]) @ map Item rs @ post)"
      "\<forall>r\<in>set rs. r < length h'"
      "folders self' = folders self1 @ filter (\<lambda>r. isdir (h' ! r)) rs"
      "files self' = files self1 @ filter (\<lambda>r. \<not> isdir (h' ! r)) rs"
      "fi self' = fi self1" "lists self' = lists self1"
      "length h1 \<le> length h'"
      "\<forall>r<length h1. basetype (h' ! r) = basetype (h1 ! r)"
    by blast
  have same: "isdir (h' ! item) = isdir (h1 ! item)"
    using rs(9) s by (simp add: isdir_def)
  have "length (item # rs) = length (entry # rest)
           \<and> contents (h' ! fi self) = Some (pre @ map Item (item # rs) @ post)
           \<and> (\<forall>r\<in>set (item # rs). r < length h')
           \<and> folders self' = folders self @ filter (\<lambda>r. isdir (h' ! r)) (item # rs)
           \<and> files self' = files self @ filter (\<lambda>r. \<not> isdir (h' ! r)) (item # rs)
           \<and> fi self' = fi self \<and> lists self' = lists self
           \<and> length h \<le> length h'
           \<and> (\<forall>r<length h. basetype (h' ! r) = basetype (h ! r))"
    using rs s fi1 l1 same by (auto simp: self1_def)
  then show ?case by blast
qed

text \<open>
  After any \<^verbatim>\<open>reload\<close> that returns, every entry of the contents of \<open>fi\<close> is a
  \<^verbatim>\<open>FileItem\<close> object, there are as many entries as before, \<open>folders\<close> holds those with
  \<^verbatim>\<open>isdir()\<close> and \<open>files\<close> the others, both in the order of the contents; \<open>lists\<close> is
  what it was.
\<close>

lemma FileDataSource_reload_partition:
  assumes run: "FileDataSource_reload ft os self h = Inr (self', h')"
    and f: "fi self < length h"
    and c: "contents (h ! fi self) = Some cs"
    and v: "\<forall>r. Item r \<in> set cs \<longrightarrow> r < length h"
  shows "\<exists>rs. contents (h' ! fi self') = Some (map Item rs)
           \<and> length rs = length cs
           \<and> (\<forall>r\<in>set rs. r < length h')
           \<and> folders self' = filter (\<lambda>r. isdir (h' ! r)) rs
           \<and> files self' = filter (\<lambda>r. \<not> isdir (h' ! r)) rs
           \<and> length (folders self') + length (files self') = length cs
           \<and> mset (folders self') + mset (files self') = mset rs
           \<and> fi self' = fi self \<and> lists self' = lists self"
proof -
  let ?self0 = "self\<lparr>folders := [], files := []\<rparr>"
  have loop: "reload_loop ft os 0 cs (?self0, h) = Inr (self', h')"
    using run c by (simp add: FileDataSource_reload_def Let_def)
  have "\<exists>rs. length rs = length cs
           \<and> contents (h' ! fi ?self0) = Some ([] @ map Item rs @ [])
           \<and> (\<forall>r\<in>set rs. r < length h')
           \<and> folders self' = folders ?self0 @ filter (\<lambda>r. isdir (h' ! r)) rs
           \<and> files self' = files ?self0 @ filter (\<lambda>r. \<not> isdir (h' ! r)) rs
           \<and> fi self' = fi ?self0 \<and> lists self' = lists ?self0
           \<and> length h \<le> length h'
           \<and> (\<forall>r<length h. basetype (h' ! r) = basetype (h ! r))"
    using f c v by (intro reload_loop_partition[OF loop]) simp_all
  then obtain rs where rs: "length rs = length cs"
      "contents (h' ! fi self) = Some (map Item rs)"
      "\<forall>r\<in>set rs. r < length h'"
      "folders self' = filter (\<lambda>r. isdir (h' ! r)) rs"
      "files self' = filter (\<lambda>r. \<not> isdir (h' ! r)) rs"
      "fi self' = fi self" "lists self' = lists self"
    by auto
  have len: "length (folders self') + length (files self') = length cs"
    using sum_length_filter_compl[of "\<lambda>r. isdir (h' ! r)" rs] rs(1,4,5) by simp
  have ms: "mset (folders self') + mset (files self') = mset rs"
    by (simp add: rs(4,5))
  show ?thesis
    using rs len ms by auto
qed

text \<open>
  After the constructor, \<open>lists\<close> is bound to the two lists, and the row counts of the
  two sections add up to the number of entries.
\<close>

lemma FileDataSource_init_rows:
  assumes run: "FileDataSource_init ft os f h = Inr (self', h')"
    and f: "f < length h"
    and c: "contents (h ! f) = Some cs"
    and v: "\<forall>r. Item r \<in> set cs \<longrightarrow> r < length h"
  shows "tableview_number_of_rows self' 0 = Inr (length (folders self'))
       \<and> tableview_number_of_rows self' 1 = Inr (length (files self'))
       \<and> length (folders self') + length (files self') = length cs
       \<and> (\<exists>rs. contents (h' ! f) = Some (map Item rs) \<and> length rs = length cs)"
proof -
  let ?self0 = "\<lparr>fi = f, folders = [], files = [], lists = None\<rparr>"
  obtain self1 where r1: "FileDataSource_reload ft os ?self0 h = Inr (self1, h')"
    and s': "self' = self1\<lparr>lists := Some [folders self1, files self1]\<rparr>"
    using run by (auto simp: FileDataSource_init_def Let_def split: sum.splits)
  have "\<exists>rs. contents (h' ! fi self1) = Some (map Item rs)
           \<and> length rs = length cs
           \<and> (\<forall>r\<in>set rs. r < length h')
           \<and> folders self1 = filter (\<lambda>r. isdir (h' ! r)) rs
           \<and> files self1 = filter (\<lambda>r. \<not> isdir (h' ! r)) rs
           \<and> length (folders self1) + length (files self1) = length cs
           \<and> mset (folders self1) + mset (files self1) = mset rs
           \<and> fi self1 = fi ?self0 \<and> lists self1 = lists ?self0"
    using f c v by (intro FileDataSource_reload_partition[OF r1]) simp_all
  then show ?thesis
    by (auto simp: s' tableview_number_of_rows_def list_getitem_def norm_index_def)
qed

lemma example_info_dirs_d:
  "get_fileinfo example_filetypes (example_os_listing ns) ''/dirs/d''
     = Inr \<lparr>dir = ''/dirs'', name = ''d'', nameparts = [''d''], ext = None,
            group = ''folder'', desc = Some ''Folder'', icon = Icon ''folder''\<rparr>"
  "get_fileinfo example_filetypes (example_os_listing ns) ''/dirs/d/a''
     = Inr \<lparr>dir = ''/dirs/d'', name = ''a'', nameparts = [''a''], ext = None,
            group = ''folder'', desc = Some ''Folder'', icon = Icon ''folder''\<rparr>"
  "get_fileinfo example_filetypes (example_os_listing ns) ''/dirs/d/b''
     = Inr \<lparr>dir = ''/dirs/d'', name = ''b'', nameparts = [''b''], ext = None,
            group = ''folder'', desc = Some ''Folder'', icon = Icon ''folder''\<rparr>"
  by (simp_all add: get_fileinfo_def example_filetypes_def example_os_listing_def example_os_def
        os_path_split_def ascii_lower_def ascii_lower_char_def extsep_def last_known_ext_def
        apply_ext_def dict_getitem_def Let_def)

lemma example_os_listing_simps:
  "os_path_isdir (example_os_listing ns) p = (take 5 p = ''/dirs'')"
  "os_stat (example_os_listing ns) p = Inl (OSError 2 ''No such file or directory'' p)"
  "os_listdir (example_os_listing ns) p = Inr ns"
  "full_path (example_os_listing ns) p = p"
  by (simp_all add: example_os_listing_def example_os_def)

text \<open>
  C10. After \<^verbatim>\<open>FileDataSource.reload\<close> the lists \<open>folders\<close> and \<open>files\<close> are an
  order-preserving partition of the contents of \<open>fi\<close>, as shown above, but the row counts
  of \<^verbatim>\<open>tableview_number_of_rows\<close> are the lengths of the lists in \<open>lists\<close>, which only
  the constructor binds. A data source is made for the directory \<^verbatim>\<open>/dirs/d\<close> while it
  has the one entry \<open>a\<close>; the directory gets a second entry \<open>b\<close> and the \<^verbatim>\<open>FileItem\<close>
  is reloaded; then \<^verbatim>\<open>FileDataSource.reload\<close> runs. The contents have two entries and
  \<open>folders\<close> and \<open>files\<close> have two together, and the row counts of the two sections
  are still 1 and 0.
\<close>

theorem FileDataSource_reload_stale_lists:
  "\<exists>h1 ds h2 d' ds2 h3.
      FileItem_new example_filetypes (example_os_listing [''a'']) FileItem_class
        (Str ''/dirs/d'') [] = Inr (0, h1)
    \<and> FileDataSource_init example_filetypes (example_os_listing [''a'']) 0 h1 = Inr (ds, h2)
    \<and> tableview_number_of_rows ds 0 = Inr 1 \<and> tableview_number_of_rows ds 1 = Inr 0
    \<and> FileItem_reload example_filetypes (example_os_listing [''a'', ''b'']) (h2 ! 0) = Inr d'
    \<and> FileDataSource_reload example_filetypes (example_os_listing [''a'', ''b'']) ds
         (h2[0 := d']) = Inr (ds2, h3)
    \<and> contents (h3 ! 0) = Some [Item 2, Item 3]
    \<and> folders ds2 = [2, 3] \<and> files ds2 = []
    \<and> tableview_number_of_rows ds2 0 = Inr 1 \<and> tableview_number_of_rows ds2 1 = Inr 0"
  by (simp add: FileItem_new_def FileItem_reload_def try_stat_def try_listdir_def
        issubclass_FileItem_def blank_def example_info_dirs_d example_os_listing_simps
        FileDataSource_init_def FileDataSource_reload_def convert_entry_def set_content_def
        join_def os_path_join_def isdir_def tableview_number_of_rows_def list_getitem_def
        norm_index_def Let_def)

section \<open>Properties of the file dispatch\<close>



section \<open>Properties of \<^verbatim>\<open>format_size\<close>\<close>

lemma format_2f_fraction:
  assumes d: "0 < d"
  shows "format_2f (of_nat m / of_nat d)
         = str_of_nat (hundredths m d div 100) @ ''.''
           @ [digit_char (hundredths m d mod 100 div 10), digit_char (hundredths m d mod 10)]"
proof -
  let ?a = "m * 100"
  let ?y = "\<bar>(of_nat m / of_nat d :: rat)\<bar> * 100"
  have y: "?y = of_nat ?a / of_nat d"
    by simp
  have fl: "\<lfloor>?y\<rfloor> = int (?a div d)"
    unfolding y by (rule floor_divide_of_nat_eq)
  have split: "(of_nat ?a :: rat) = of_nat (?a div d) * of_nat d + of_nat (?a mod d)"
    by (metis of_nat_add of_nat_mult div_mult_mod_eq)
  have frac: "?y - of_int \<lfloor>?y\<rfloor> = of_nat (?a mod d) / of_nat d"
    unfolding fl unfolding y using d by (subst split) (simp add: field_simps)
  have half: "((1::rat) / 2 < of_nat (?a mod d) / of_nat d) = (d < 2 * (?a mod d))"
  proof -
    have "((1::rat) / 2 < of_nat (?a mod d) / of_nat d) = ((of_nat d :: rat) < of_nat (2 * (?a mod d)))"
      using d by (simp add: field_simps)
    then show ?thesis by (simp only: of_nat_less_iff)
  qed
  have tie: "(of_nat (?a mod d) / of_nat d = (1::rat) / 2) = (2 * (?a mod d) = d)"
  proof -
    have "(of_nat (?a mod d) / of_nat d = (1::rat) / 2) = ((of_nat (2 * (?a mod d)) :: rat) = of_nat d)"
      using d by (auto simp: field_simps)
    then show ?thesis by (simp only: of_nat_eq_iff)
  qed
  have nonneg: "\<not> (of_nat m / of_nat d :: rat) < 0"
    by (simp add: not_less)
  have n: "nat (if 1 / 2 < ?y - of_int \<lfloor>?y\<rfloor> \<or> (?y - of_int \<lfloor>?y\<rfloor> = 1 / 2 \<and> odd \<lfloor>?y\<rfloor>)
                then \<lfloor>?y\<rfloor> + 1 else \<lfloor>?y\<rfloor>) = hundredths m d"
    unfolding frac half tie unfolding fl
    by (simp add: hundredths_def Let_def nat_add_distrib)
  show ?thesis
    unfolding format_2f_def Let_def n using nonneg by simp
qed

lemma format_2f_numeral_div:
  "format_2f (numeral a / numeral b)
     = str_of_nat (hundredths (numeral a) (numeral b) div 100) @ ''.''
       @ [digit_char (hundredths (numeral a) (numeral b) mod 100 div 10),
          digit_char (hundredths (numeral a) (numeral b) mod 10)]"
  using format_2f_fraction[of "numeral b" "numeral a"] by simp

lemma format_2f_numeral:
  "format_2f (numeral a)
     = str_of_nat (hundredths (numeral a) 1 div 100) @ ''.''
       @ [digit_char (hundredths (numeral a) 1 mod 100 div 10),
          digit_char (hundredths (numeral a) 1 mod 10)]"
  using format_2f_fraction[of 1 "numeral a"] by simp

lemma bit_length_le: "(bit_length n \<le> k) = (n < 2 ^ k)"
proof (induction k arbitrary: n)
  case 0
  show ?case by (subst bit_length.simps) simp
next
  case (Suc k)
  have "(bit_length n \<le> Suc k) = (n = 0 \<or> bit_length (n div 2) \<le> k)"
    by (subst bit_length.simps) simp
  also have "\<dots> = (n = 0 \<or> n div 2 < 2 ^ k)"
    by (simp only: Suc.IH)
  also have "\<dots> = (n < 2 ^ Suc k)"
    by auto
  finally show ?case .
qed

lemma float_of_nat_exact: "n < 2 ^ 53 \<Longrightarrow> float_of_nat n = Inr (of_nat n)"
  using bit_length_le[of n 53] by (simp add: float_of_nat_def Let_def)

lemma py_float_exact: "0 \<le> i \<Longrightarrow> i < 2 ^ 53 \<Longrightarrow> py_float i = Inr (of_int i)"
proof -
  assume a: "0 \<le> i" "i < 2 ^ 53"
  then have "nat \<bar>i\<bar> < 2 ^ 53"
    by (simp add: nat_less_iff)
  then have "float_of_nat (nat \<bar>i\<bar>) = Inr (of_nat (nat \<bar>i\<bar>))"
    by (rule float_of_nat_exact)
  then show ?thesis
    using a by (simp add: py_float_def)
qed

lemma size_loop_spec:
  "sufs \<noteq> [] \<Longrightarrow>
   \<exists>k. 1 \<le> k \<and> k \<le> length sufs
     \<and> size_loop f s0 sufs = (f / 1024 ^ k, Some (sufs ! (k - 1)))
     \<and> (\<forall>j. 1 \<le> j \<and> j < k \<longrightarrow> 1024 \<le> f / 1024 ^ j)
     \<and> (f / 1024 ^ k < 1024 \<or> k = length sufs)"
proof (induction sufs arbitrary: f s0)
  case Nil
  then show ?case by simp
next
  case (Cons s rest)
  show ?case
  proof (cases "f / 1024 < 1024")
    case True
    then have "1 \<le> (1::nat) \<and> 1 \<le> length (s # rest)
     \<and> size_loop f s0 (s # rest) = (f / 1024 ^ 1, Some ((s # rest) ! (1 - 1)))
     \<and> (\<forall>j. 1 \<le> j \<and> j < 1 \<longrightarrow> 1024 \<le> f / 1024 ^ j)
     \<and> (f / 1024 ^ 1 < 1024 \<or> 1 = length (s # rest))"
      by simp
    then show ?thesis by blast
  next
    case False
    show ?thesis
    proof (cases "rest = []")
      case True
      then have "1 \<le> (1::nat) \<and> 1 \<le> length (s # rest)
     \<and> size_loop f s0 (s # rest) = (f / 1024 ^ 1, Some ((s # rest) ! (1 - 1)))
     \<and> (\<forall>j. 1 \<le> j \<and> j < 1 \<longrightarrow> 1024 \<le> f / 1024 ^ j)
     \<and> (f / 1024 ^ 1 < 1024 \<or> 1 = length (s # rest))"
        using False by simp
      then show ?thesis by blast
    next
      case ne: False
      obtain k where k: "1 \<le> k" "k \<le> length rest"
        "size_loop (f / 1024) (Some s) rest = (f / 1024 / 1024 ^ k, Some (rest ! (k - 1)))"
        "\<forall>j. 1 \<le> j \<and> j < k \<longrightarrow> 1024 \<le> f / 1024 / 1024 ^ j"
        "f / 1024 / 1024 ^ k < 1024 \<or> k = length rest"
        using Cons.IH[OF ne, of "f / 1024" "Some s"] by blast
      have pw: "\<And>j. f / 1024 / 1024 ^ j = f / 1024 ^ Suc j"
        by simp
      have nth: "(s # rest) ! (Suc k - 1) = rest ! (k - 1)"
        using k(1) by (cases k) simp_all
      have run: "size_loop f s0 (s # rest) = (f / 1024 ^ Suc k, Some ((s # rest) ! (Suc k - 1)))"
        using False k(3) unfolding pw nth by simp
      have low: "\<forall>j. 1 \<le> j \<and> j < Suc k \<longrightarrow> 1024 \<le> f / 1024 ^ j"
      proof (intro allI impI)
        fix j assume j: "1 \<le> j \<and> j < Suc k"
        show "1024 \<le> f / 1024 ^ j"
        proof (cases "j = 1")
          case True
          then show ?thesis using False by simp
        next
          case j1: False
          then obtain j' where j': "j = Suc j'" "1 \<le> j'" "j' < k"
            using j by (cases j) auto
          then show ?thesis using k(4) pw by metis
        qed
      qed
      have "1 \<le> Suc k \<and> Suc k \<le> length (s # rest)
     \<and> size_loop f s0 (s # rest) = (f / 1024 ^ Suc k, Some ((s # rest) ! (Suc k - 1)))
     \<and> (\<forall>j. 1 \<le> j \<and> j < Suc k \<longrightarrow> 1024 \<le> f / 1024 ^ j)
     \<and> (f / 1024 ^ Suc k < 1024 \<or> Suc k = length (s # rest))"
        using k(2,5) run low unfolding pw by simp
      then show ?thesis by blast
    qed
  qed
qed

lemma format_2f_one: "format_2f 1 = ''1.00''"
  using format_2f_fraction[of 1 1]
  by (simp add: hundredths_def str_of_nat.simps digit_char_def)


lemmas fs_eval = format_size_def py_float_def float_of_nat_def bit_length.simps size_loop.simps
  SIZE_SUFFIXES_def format_2f_one format_2f_numeral format_2f_numeral_div hundredths_def
  str_of_int_def str_of_nat.simps digit_char_def Let_def

lemma format_size_example:
  "format_size 123456789 True = Inr ''117.74 MiB (123456789 bytes)''"
  by (simp add: fs_eval)


lemma float_of_nat_returns:
  assumes n: "n < 2 ^ 1023"
  shows "\<exists>f. float_of_nat n = Inr f"
proof (cases "bit_length n \<le> 53")
  case True
  then show ?thesis by (simp add: float_of_nat_def Let_def)
next
  case False
  define bits where "bits = bit_length n"
  define sh where "sh = bits - 53"
  define q where "q = n div 2 ^ sh"
  define q' where "q' = (if 2 ^ (sh - 1) < n mod 2 ^ sh \<or> (n mod 2 ^ sh = 2 ^ (sh - 1) \<and> odd q)
                         then q + 1 else q)"
  have bits: "bits = sh + 53"
    using False by (simp add: sh_def bits_def)
  have b1023: "bits \<le> 1023"
    using n bit_length_le[of n 1023] by (simp add: bits_def)
  have "n < 2 ^ bits"
    using bit_length_le[of n bits] by (simp add: bits_def)
  then have "n < 2 ^ 53 * 2 ^ sh"
    by (simp add: bits power_add mult.commute)
  then have "q < 2 ^ 53"
    unfolding q_def by (simp add: less_mult_imp_div_less)
  then have "q' \<le> 2 ^ 53"
    by (simp add: q'_def)
  then have "q' * 2 ^ sh \<le> 2 ^ 53 * 2 ^ sh"
    by (rule mult_le_mono1)
  also have "\<dots> = 2 ^ bits"
    by (simp add: bits power_add mult.commute)
  also have "\<dots> \<le> (2::nat) ^ 1023"
    using b1023 by (intro power_increasing) simp_all
  also have "\<dots> < (2::nat) ^ 1024"
    by simp
  finally have small: "\<not> 2 ^ 1024 \<le> q' * 2 ^ sh"
    by simp
  have nb: "(bit_length n \<le> 53) = False"
    using False by simp
  have "float_of_nat n = (if 2 ^ 1024 \<le> q' * 2 ^ sh then Inl OverflowError
                          else Inr (of_nat (q' * 2 ^ sh)))"
    unfolding q'_def q_def sh_def bits_def float_of_nat_def Let_def
    by (simp only: nb if_False)
  then have "float_of_nat n = Inr (of_nat (q' * 2 ^ sh))"
    using small by (simp only: if_False)
  then show ?thesis by blast
qed

lemma py_float_returns: "0 \<le> i \<Longrightarrow> i < 2 ^ 1023 \<Longrightarrow> \<exists>f. py_float i = Inr f"
proof -
  assume a: "0 \<le> i" "i < 2 ^ 1023"
  then have "nat \<bar>i\<bar> < 2 ^ 1023"
    by (simp add: nat_less_iff)
  then obtain f where "float_of_nat (nat \<bar>i\<bar>) = Inr f"
    using float_of_nat_returns by blast
  then show ?thesis
    by (simp add: py_float_def)
qed

lemma format_size_scaled:
  assumes big: "1024 \<le> sz" and fl: "py_float sz = Inr f"
  shows "\<exists>k. 1 \<le> k \<and> k \<le> 8
           \<and> (\<forall>j. 1 \<le> j \<and> j < k \<longrightarrow> 1024 \<le> f / 1024 ^ j)
           \<and> (f / 1024 ^ k < 1024 \<or> k = 8)
           \<and> format_size sz longf
               = Inr (format_2f (f / 1024 ^ k) @ '' '' @ SIZE_SUFFIXES ! k
                      @ (if longf then '' ('' @ str_of_int sz @ '' bytes)'' else ''''))"
proof -
  have ne: "tl SIZE_SUFFIXES \<noteq> []" and len: "length (tl SIZE_SUFFIXES) = 8"
    by (simp_all add: SIZE_SUFFIXES_def)
  obtain k where k: "1 \<le> k" "k \<le> length (tl SIZE_SUFFIXES)"
      "size_loop f None (tl SIZE_SUFFIXES) = (f / 1024 ^ k, Some (tl SIZE_SUFFIXES ! (k - 1)))"
      "\<forall>j. 1 \<le> j \<and> j < k \<longrightarrow> 1024 \<le> f / 1024 ^ j"
      "f / 1024 ^ k < 1024 \<or> k = length (tl SIZE_SUFFIXES)"
    using size_loop_spec[OF ne, of f None] by blast
  have nth: "tl SIZE_SUFFIXES ! (k - 1) = SIZE_SUFFIXES ! k"
    using k(1) by (cases k) (simp_all add: SIZE_SUFFIXES_def)
  have run: "format_size sz longf
               = Inr (format_2f (f / 1024 ^ k) @ '' '' @ SIZE_SUFFIXES ! k
                      @ (if longf then '' ('' @ str_of_int sz @ '' bytes)'' else ''''))"
    using big fl k(3) nth by (simp add: format_size_def Let_def)
  show ?thesis
    using k(1,2,4,5) run unfolding len by blast
qed

text \<open>
  From 1024 on, \<^verbatim>\<open>format_size\<close> does what its docstring says. A size below \<open>2^53\<close> is
  converted to a float exactly, and the result is the size scaled to the smallest unit
  among \<open>KiB\<close> to \<open>YiB\<close> at which the scaled value is below 1024 (the last unit, when
  there is none), printed with two decimals; when \<open>longf\<close> is true the original size in
  bytes follows in parentheses.
\<close>

lemma format_size_from_1024:
  assumes "1024 \<le> sz" and "sz < 2 ^ 53"
  shows "\<exists>k. 1 \<le> k \<and> k \<le> 8
           \<and> (\<forall>j. 1 \<le> j \<and> j < k \<longrightarrow> 1024 \<le> (of_int sz :: rat) / 1024 ^ j)
           \<and> ((of_int sz :: rat) / 1024 ^ k < 1024 \<or> k = 8)
           \<and> format_size sz longf
               = Inr (format_2f (of_int sz / 1024 ^ k) @ '' '' @ SIZE_SUFFIXES ! k
                      @ (if longf then '' ('' @ str_of_int sz @ '' bytes)'' else []))"
proof -
  have "py_float sz = Inr (of_int sz)"
    using assms by (intro py_float_exact) simp_all
  then show ?thesis
    using format_size_scaled[OF assms(1), of "of_int sz" longf] by simp
qed

text \<open>
  C2. For a size below 1024 the docstring of \<^verbatim>\<open>format_size\<close> and the claim say the
  same as from 1024 on: the size with its unit and, when \<open>longf\<close> is true, the original
  size in bytes appended in parentheses. The code returns from the branch
  \<^verbatim>\<open>size < 1024\<close> before it looks at \<open>longf\<close>: for a file of 100 bytes and \<open>longf\<close>
  true the result is \<open>100 bytes\<close>, the same as with \<open>longf\<close> false, with nothing in
  parentheses, while a file of 1024 bytes gets its size in bytes appended.
\<close>

theorem format_size_small_longf:
  "format_size 100 True = Inr ''100 bytes''
   \<and> format_size 100 False = Inr ''100 bytes''
   \<and> format_size 1024 True = Inr ''1.00 KiB (1024 bytes)''
   \<and> format_size 1024 False = Inr ''1.00 KiB''"
  by (simp add: fs_eval)

section \<open>Properties of the favorites list\<close>

lemma norm_index_valid:
  "0 \<le> i \<Longrightarrow> i < int (length xs) \<Longrightarrow> norm_index xs i = Some (nat i)"
  by (simp add: norm_index_def)

lemma list_delitem_valid:
  "0 \<le> i \<Longrightarrow> i < int (length xs) \<Longrightarrow>
     list_delitem xs i = Inr (take (nat i) xs @ drop (Suc (nat i)) xs)"
  by (simp add: list_delitem_def norm_index_valid)

lemma list_pop_valid:
  "0 \<le> i \<Longrightarrow> i < int (length xs) \<Longrightarrow>
     list_pop xs i = Inr (xs ! nat i, take (nat i) xs @ drop (Suc (nat i)) xs)"
  by (simp add: list_pop_def norm_index_valid)

lemma list_insert_valid:
  "0 \<le> i \<Longrightarrow> i \<le> int (length xs) \<Longrightarrow>
     list_insert xs i x = take (nat i) xs @ [x] @ drop (nat i) xs"
  by (simp add: list_insert_def Let_def min_def)

lemma nth_remove_index:
  assumes "j < length xs"
  shows "i < j \<Longrightarrow> (take j xs @ drop (Suc j) xs) ! i = xs ! i"
    and "j \<le> i \<Longrightarrow> Suc i < length xs \<Longrightarrow> (take j xs @ drop (Suc j) xs) ! i = xs ! Suc i"
  using assms by (auto simp: nth_append min_def)

lemma mset_remove_index:
  "j < length xs \<Longrightarrow> mset (take j xs @ drop (Suc j) xs) + {#xs ! j#} = mset xs"
proof -
  assume j: "j < length xs"
  have "xs = take j xs @ xs ! j # drop (Suc j) xs"
    using j by (simp add: id_take_nth_drop)
  then have "mset xs = mset (take j xs @ xs ! j # drop (Suc j) xs)"
    by simp
  then show ?thesis by simp
qed

text \<open>
  C5. For a loaded favorites list and a valid row index \<open>0 \<le> row < len(entries)\<close>,
  \<^verbatim>\<open>tableview_delete\<close> returns normally; the new list is the old one without the entry
  at \<open>row\<close>: one entry shorter, the entries before \<open>row\<close> unchanged in place, the entries
  after it shifted down by one in the same order; the table view is told to delete that
  row, and the file \<open>src\<close> then holds the updated list.
\<close>

theorem tableview_delete_removes_row:
  assumes "0 \<le> row" and "row < int (length (entries self))"
  shows "\<exists>self' tv' d'.
           tableview_delete self tv d section row = Inr (self', tv', d')
         \<and> entries self' = take (nat row) (entries self) @ drop (Suc (nat row)) (entries self)
         \<and> Suc (length (entries self')) = length (entries self)
         \<and> (\<forall>i. i < nat row \<longrightarrow> entries self' ! i = entries self ! i)
         \<and> (\<forall>i. nat row \<le> i \<and> i < length (entries self')
               \<longrightarrow> entries self' ! i = entries self ! Suc i)
         \<and> mset (entries self') + {#entries self ! nat row#} = mset (entries self)
         \<and> src self' = src self
         \<and> tv' = tv @ [Delete_rows [row]]
         \<and> d' = d(src self \<mapsto> entries self')"
proof -
  let ?j = "nat row"
  let ?es = "take ?j (entries self) @ drop (Suc ?j) (entries self)"
  have j: "?j < length (entries self)"
    using assms by linarith
  have run: "tableview_delete self tv d section row
      = Inr (self\<lparr>entries := ?es\<rparr>, tv @ [Delete_rows [row]], d(src self \<mapsto> ?es))"
    using assms by (simp add: tableview_delete_def list_delitem_valid)
  have len: "Suc (length ?es) = length (entries self)"
    using j by (simp add: min_def)
  have before: "\<forall>i. i < ?j \<longrightarrow> ?es ! i = entries self ! i"
    using nth_remove_index(1)[OF j] by blast
  have after: "\<forall>i. ?j \<le> i \<and> i < length ?es \<longrightarrow> ?es ! i = entries self ! Suc i"
    using nth_remove_index(2)[OF j] len by auto
  have perm: "mset ?es + {#entries self ! ?j#} = mset (entries self)"
    using j by (rule mset_remove_index)
  show ?thesis
    using run len before after perm by simp
qed

theorem tableview_delete_removes_row_witness:
  "\<exists>self' tv' d'.
      tableview_delete
        \<lparr>src = ''favs.json'',
         entries = [(''/a'', ''A''), (''/b'', ''B''), (''/c'', ''C'')]\<rparr>
        [] Map.empty 0 1 = Inr (self', tv', d')
    \<and> entries self' = [(''/a'', ''A''), (''/c'', ''C'')]
    \<and> d' ''favs.json'' = Some [(''/a'', ''A''), (''/c'', ''C'')]"
  using tableview_delete_removes_row
    [of 1 "\<lparr>src = ''favs.json'',
            entries = [(''/a'', ''A''), (''/b'', ''B''), (''/c'', ''C'')]\<rparr>"
        "[]" Map.empty 0]
  by auto

lemma insert_at_facts:
  assumes "t \<le> length rest"
  shows "length (take t rest @ [x] @ drop t rest) = Suc (length rest)"
    and "mset (take t rest @ [x] @ drop t rest) = mset rest + {#x#}"
    and "(take t rest @ [x] @ drop t rest) ! t = x"
    and "take t (take t rest @ [x] @ drop t rest) @ drop (Suc t) (take t rest @ [x] @ drop t rest) = rest"
proof -
  have lt: "length (take t rest) = t"
    using assms by simp
  show "length (take t rest @ [x] @ drop t rest) = Suc (length rest)"
    using assms by simp
  have "mset (take t rest @ [x] @ drop t rest) = mset (take t rest @ drop t rest) + {#x#}"
    by (simp del: append_take_drop_id)
  then show "mset (take t rest @ [x] @ drop t rest) = mset rest + {#x#}"
    by simp
  show "(take t rest @ [x] @ drop t rest) ! t = x"
    using lt by (simp add: nth_append)
  show "take t (take t rest @ [x] @ drop t rest) @ drop (Suc t) (take t rest @ [x] @ drop t rest) = rest"
    using lt assms by simp
qed

text \<open>
  C6. For a loaded favorites list and valid row indices \<open>from_row\<close> and \<open>to_row\<close>
  (both in \<open>0 \<le> row < len(entries)\<close>), \<^verbatim>\<open>tableview_move_row\<close> returns normally; the
  new list is the old one with the entry at \<open>from_row\<close> removed and put back at position
  \<open>to_row\<close>. It has the same length and the same entries (a permutation), the moved
  entry stands at index \<open>to_row\<close>, and taking the moved entry out of the new list gives
  what taking it out of the old list gives, so all other entries keep their relative
  order. The file \<open>src\<close> then holds the reordered list.
\<close>

theorem tableview_move_row_reorders:
  assumes "0 \<le> from_row" and "from_row < int (length (entries self))"
    and "0 \<le> to_row" and "to_row < int (length (entries self))"
  shows "\<exists>self' d'.
           tableview_move_row self d from_section from_row to_section to_row = Inr (self', d')
         \<and> entries self' =
             take (nat to_row)
               (take (nat from_row) (entries self) @ drop (Suc (nat from_row)) (entries self))
             @ [entries self ! nat from_row]
             @ drop (nat to_row)
               (take (nat from_row) (entries self) @ drop (Suc (nat from_row)) (entries self))
         \<and> length (entries self') = length (entries self)
         \<and> mset (entries self') = mset (entries self)
         \<and> entries self' ! nat to_row = entries self ! nat from_row
         \<and> take (nat to_row) (entries self') @ drop (Suc (nat to_row)) (entries self')
             = take (nat from_row) (entries self) @ drop (Suc (nat from_row)) (entries self)
         \<and> src self' = src self
         \<and> d' = d(src self \<mapsto> entries self')"
proof -
  define f t xs where "f = nat from_row" and "t = nat to_row" and "xs = entries self"
  define x rest where "x = xs ! f" and "rest = take f xs @ drop (Suc f) xs"
  define new where "new = take t rest @ [x] @ drop t rest"
  have f: "f < length xs" and t: "t < length xs"
    using assms by (simp_all add: f_def t_def xs_def)
  have len_rest: "Suc (length rest) = length xs"
    using f by (simp add: rest_def min_def)
  have t_rest: "t \<le> length rest"
    using t len_rest by linarith
  have pop: "list_pop xs from_row = Inr (x, rest)"
    using assms(1,2) by (simp add: list_pop_valid x_def rest_def f_def xs_def)
  have ins: "list_insert rest to_row x = new"
    unfolding new_def t_def
  proof (rule list_insert_valid)
    show "0 \<le> to_row" by (rule assms(3))
    show "to_row \<le> int (length rest)"
      using t_rest assms(3) by (simp add: t_def)
  qed
  have run: "tableview_move_row self d from_section from_row to_section to_row
      = Inr (self\<lparr>entries := new\<rparr>, d(src self \<mapsto> new))"
    using pop ins by (simp add: tableview_move_row_def xs_def)
  have len: "length new = length xs"
    using insert_at_facts(1)[OF t_rest, of x] len_rest by (simp only: new_def)
  have perm: "mset new = mset xs"
    using insert_at_facts(2)[OF t_rest, of x] mset_remove_index[OF f]
    by (simp only: new_def rest_def x_def)
  have at: "new ! t = x"
    using insert_at_facts(3)[OF t_rest, of x] by (simp only: new_def)
  have others: "take t new @ drop (Suc t) new = rest"
    using insert_at_facts(4)[OF t_rest, of x] by (simp only: new_def)
  have "tableview_move_row self d from_section from_row to_section to_row
          = Inr (self\<lparr>entries := new\<rparr>, d(src self \<mapsto> new))
      \<and> entries (self\<lparr>entries := new\<rparr>) = take t rest @ [x] @ drop t rest
      \<and> length (entries (self\<lparr>entries := new\<rparr>)) = length xs
      \<and> mset (entries (self\<lparr>entries := new\<rparr>)) = mset xs
      \<and> entries (self\<lparr>entries := new\<rparr>) ! t = x
      \<and> take t (entries (self\<lparr>entries := new\<rparr>)) @ drop (Suc t) (entries (self\<lparr>entries := new\<rparr>)) = rest
      \<and> src (self\<lparr>entries := new\<rparr>) = src self
      \<and> d(src self \<mapsto> new) = d(src self \<mapsto> entries (self\<lparr>entries := new\<rparr>))"
    using run len perm at others by (simp add: new_def)
  then show ?thesis
    unfolding f_def t_def xs_def x_def rest_def by blast
qed

theorem tableview_move_row_reorders_witness:
  "\<exists>self' d'.
      tableview_move_row
        \<lparr>src = ''favs.json'',
         entries = [(''/a'', ''A''), (''/b'', ''B''), (''/c'', ''C''), (''/d'', ''D'')]\<rparr>
        Map.empty 0 0 0 2 = Inr (self', d')
    \<and> entries self' = [(''/b'', ''B''), (''/c'', ''C''), (''/a'', ''A''), (''/d'', ''D'')]
    \<and> d' ''favs.json''
        = Some [(''/b'', ''B''), (''/c'', ''C''), (''/a'', ''A''), (''/d'', ''D'')]"
  using tableview_move_row_reorders
    [of 0 "\<lparr>src = ''favs.json'',
            entries = [(''/a'', ''A''), (''/b'', ''B''), (''/c'', ''C''), (''/d'', ''D'')]\<rparr>"
        2 Map.empty 0 0]
  by (auto simp: numeral_2_eq_2)

end
